theory Spec2Isabelle
  imports Complex_Main "HOL-Library.Sublist"
begin

section \<open>Values exchanged with the language model\<close>

text \<open>
  The structured calls of \<^verbatim>\<open>app.py\<close> hand pydantic the object that the JSON-mode
  answer decodes to: \<^verbatim>\<open>None\<close>, booleans, integers, floats, strings, lists and
  dictionaries with string keys. A Python float is modelled by the number it denotes
  (Python's \<^verbatim>\<open>==\<close> between \<^verbatim>\<open>0\<close> and \<^verbatim>\<open>0.0\<close> compares that number); the
  values \<^verbatim>\<open>nan\<close> and \<^verbatim>\<open>inf\<close> are left out.
  A dictionary is a map from its keys to its values.
\<close>

datatype json =
    JNull
  | JBool bool
  | JInt int
  | JFloat real
  | JStr string
  | JArr "json list"
  | JObj "string \<Rightarrow> json option"

type_synonym dict = "string \<Rightarrow> json option"

text \<open>
  Errors. A pydantic \<^verbatim>\<open>ValidationError\<close> lists every offending field with its
  location (keys and list indices from the root) and whether the field is missing or
  has an unacceptable value. Any other exception raised inside a validator is not
  converted by pydantic and ends validation at once; the only one the validators of
  this file can raise is the \<^verbatim>\<open>TypeError\<close> of \<^verbatim>\<open>dict.get\<close> on an unhashable
  key. \<open>ProviderError\<close> stands for a failure of the model provider and \<open>KeyError\<close>
  for \<^verbatim>\<open>state[...]\<close> on an absent key.
\<close>

datatype loc = Key string | Idx nat

datatype kind = Missing | Invalid

datatype error =
    ValidationError "(loc list \<times> kind) list"
  | TypeError
  | ProviderError
  | KeyError string

definition invalid :: "error + 'a" where
  "invalid = Inl (ValidationError [([], Invalid)])"

text \<open>The errors of two parts validated one after the other: validation errors
  accumulate, an exception of the first part hides the second part.\<close>

fun join :: "error \<Rightarrow> error \<Rightarrow> error" where
  "join (ValidationError a) (ValidationError b) = ValidationError (a @ b)"
| "join (ValidationError a) e = e"
| "join e _ = e"

text \<open>\<open>at_loc l r\<close> reports the errors of \<open>r\<close> below the location \<open>l\<close>.\<close>

fun at_loc :: "loc \<Rightarrow> error + 'a \<Rightarrow> error + 'a" where
  "at_loc l (Inl (ValidationError es)) = Inl (ValidationError (map (\<lambda>(p, k). (l # p, k)) es))"
| "at_loc l r = r"

definition and_then :: "error + 'a \<Rightarrow> ('a \<Rightarrow> error + 'b) \<Rightarrow> error + 'b" where
  "and_then r f = (case r of Inl e \<Rightarrow> Inl e | Inr x \<Rightarrow> f x)"

definition err_of :: "error + 'a \<Rightarrow> error option" where
  "err_of r = (case r of Inl e \<Rightarrow> Some e | Inr _ \<Rightarrow> None)"

text \<open>The outcome of the fields of one model, in field order.\<close>

fun collect :: "error option list \<Rightarrow> error option" where
  "collect [] = None"
| "collect (None # es) = collect es"
| "collect (Some e # es) = Some (case collect es of None \<Rightarrow> e | Some e' \<Rightarrow> join e e')"

section \<open>Field types\<close>

text \<open>
  pydantic validates in lax mode. A value of the field's own JSON type is taken as it
  is. What lax mode makes of a value of another type (a numeric string for an
  \<^verbatim>\<open>int\<close>, \<^verbatim>\<open>1\<close> for a \<^verbatim>\<open>bool\<close>, ...) is pydantic's conversion table, which is
  not part of this repository: it is the parameter \<open>L\<close> of every validator below, and
  nothing is assumed about it.

  A float field also takes an integer, converted to a double. Every integer of
  magnitude at most 2 to the power 53 is a double, so the conversion keeps its value. A larger
  integer is rounded to a neighbouring double, or rejected when it is beyond the range
  of doubles; that outcome is left to \<open>L\<close> as well.
\<close>

record coercions =
  lax_str :: "json \<Rightarrow> string option"
  lax_int :: "json \<Rightarrow> int option"
  lax_float :: "json \<Rightarrow> real option"
  lax_bool :: "json \<Rightarrow> bool option"

definition lax :: "'a option \<Rightarrow> error + 'a" where
  "lax c = (case c of Some x \<Rightarrow> Inr x | None \<Rightarrow> invalid)"

definition str_type :: "coercions \<Rightarrow> json \<Rightarrow> error + string" where
  "str_type L v = (case v of JStr s \<Rightarrow> Inr s | _ \<Rightarrow> lax (lax_str L v))"

definition int_type :: "coercions \<Rightarrow> json \<Rightarrow> error + int" where
  "int_type L v = (case v of JInt n \<Rightarrow> Inr n | _ \<Rightarrow> lax (lax_int L v))"

definition float_type :: "coercions \<Rightarrow> json \<Rightarrow> error + real" where
  "float_type L v =
     (case v of
        JFloat x \<Rightarrow> Inr x
      | JInt n \<Rightarrow> if \<bar>n\<bar> \<le> 2 ^ 53 then Inr (of_int n) else lax (lax_float L v)
      | _ \<Rightarrow> lax (lax_float L v))"

definition bool_type :: "coercions \<Rightarrow> json \<Rightarrow> error + bool" where
  "bool_type L v = (case v of JBool b \<Rightarrow> Inr b | _ \<Rightarrow> lax (lax_bool L v))"

text \<open>\<^verbatim>\<open>Optional[T]\<close>: \<^verbatim>\<open>None\<close> or a \<^verbatim>\<open>T\<close>.\<close>

definition optional :: "(json \<Rightarrow> error + 'a) \<Rightarrow> json \<Rightarrow> error + 'a option" where
  "optional f v = (case v of JNull \<Rightarrow> Inr None | _ \<Rightarrow> and_then (f v) (\<lambda>x. Inr (Some x)))"

text \<open>\<^verbatim>\<open>Literal[...]\<close> of strings: exactly one of the listed strings.\<close>

definition literal :: "string list \<Rightarrow> json \<Rightarrow> error + string" where
  "literal allowed v =
     (case v of JStr s \<Rightarrow> if s \<in> set allowed then Inr s else invalid | _ \<Rightarrow> invalid)"

text \<open>\<^verbatim>\<open>List[T]\<close>: every item is validated, at its index.\<close>

fun items :: "(json \<Rightarrow> error + 'a) \<Rightarrow> nat \<Rightarrow> json list \<Rightarrow> error + 'a list" where
  "items f i [] = Inr []"
| "items f i (x # xs) =
     (case at_loc (Idx i) (f x) of
        Inl e \<Rightarrow> Inl (case items f (Suc i) xs of Inl e' \<Rightarrow> join e e' | Inr _ \<Rightarrow> e)
      | Inr y \<Rightarrow> (case items f (Suc i) xs of Inl e' \<Rightarrow> Inl e' | Inr ys \<Rightarrow> Inr (y # ys)))"

definition list_type :: "(json \<Rightarrow> error + 'a) \<Rightarrow> json \<Rightarrow> error + 'a list" where
  "list_type f v = (case v of JArr xs \<Rightarrow> items f 0 xs | _ \<Rightarrow> invalid)"

text \<open>A field without a default must be present; a field with a default takes it
  (unvalidated) when the key is absent.\<close>

definition required :: "string \<Rightarrow> dict \<Rightarrow> (json \<Rightarrow> error + 'a) \<Rightarrow> error + 'a" where
  "required k d f =
     (case d k of None \<Rightarrow> Inl (ValidationError [([Key k], Missing)])
      | Some v \<Rightarrow> at_loc (Key k) (f v))"

definition with_default :: "string \<Rightarrow> dict \<Rightarrow> 'a \<Rightarrow> (json \<Rightarrow> error + 'a) \<Rightarrow> error + 'a" where
  "with_default k d dflt f = (case d k of None \<Rightarrow> Inr dflt | Some v \<Rightarrow> at_loc (Key k) (f v))"

text \<open>Python's \<^verbatim>\<open>mapping.get(v, v)\<close> on a dictionary from strings to strings: a list
  or a dictionary is unhashable, any other value that is not a key comes back as it is.\<close>

definition dict_get :: "(string \<times> string) list \<Rightarrow> json \<Rightarrow> error + json" where
  "dict_get mapping v =
     (case v of
        JArr _ \<Rightarrow> Inl TypeError
      | JObj _ \<Rightarrow> Inl TypeError
      | JStr s \<Rightarrow> Inr (case map_of mapping s of Some t \<Rightarrow> JStr t | None \<Rightarrow> v)
      | _ \<Rightarrow> Inr v)"

section \<open>The schema\<close>

record Ingredient =
  name_en :: string
  name_nl :: string
  quantity :: "string option"

definition Ingredient_validate :: "coercions \<Rightarrow> json \<Rightarrow> error + Ingredient" where
  "Ingredient_validate L v =
     (case v of
        JObj d \<Rightarrow>
          (let r1 = required ''name_en'' d (str_type L);
               r2 = required ''name_nl'' d (str_type L);
               r3 = with_default ''quantity'' d (Some ''to taste'') (optional (str_type L))
           in case collect [err_of r1, err_of r2, err_of r3] of
                Some e \<Rightarrow> Inl e
              | None \<Rightarrow> Inr \<lparr>name_en = projr r1, name_nl = projr r2, quantity = projr r3\<rparr>)
      | _ \<Rightarrow> invalid)"

record RecipeStep =
  display_name_en :: string
  display_name_nl :: string
  action_en :: string
  action_nl :: string
  instructions_en :: string
  instructions_nl :: string
  workplace :: string
  has_timer :: bool
  timer_minutes :: "real option"
  is_first_appearance :: bool

definition workplaces :: "string list" where
  "workplaces = [''Stove'', ''Oven'', ''Blender'', ''Cutting board'', ''Bowl'', ''Pan'']"

definition workplace_mapping :: "(string \<times> string) list" where
  "workplace_mapping =
     [(''Plate'', ''Bowl''),
      (''Wok'', ''Stove''),
      (''Pot'', ''Stove''),
      (''Stock pot'', ''Stove''),
      (''Stock Pot'', ''Stove''),
      (''Sink'', ''Bowl''),
      (''Counter'', ''Cutting board''),
      (''Table'', ''Cutting board''),
      (''Grill'', ''Stove''),
      (''Microwave'', ''Oven''),
      (''Chopping board'', ''Cutting board''),
      (''Chopping Board'', ''Cutting board''),
      (''Toaster'', ''Stove''),
      (''Worktop'', ''Cutting board''),
      (''Kitchen counter'', ''Cutting board''),
      (''Loaf pan'', ''Oven''),
      (''Loaf Pan'', ''Oven'')]"

definition fix_workplace :: "json \<Rightarrow> error + json" where
  "fix_workplace v = dict_get workplace_mapping v"

text \<open>The \<^verbatim>\<open>mode="before"\<close> validator of \<^verbatim>\<open>workplace\<close> runs on the raw value, the
  \<^verbatim>\<open>Literal\<close> check on what it returns.\<close>

definition workplace_field :: "json \<Rightarrow> error + string" where
  "workplace_field v = and_then (fix_workplace v) (literal workplaces)"

definition RecipeStep_validate :: "coercions \<Rightarrow> json \<Rightarrow> error + RecipeStep" where
  "RecipeStep_validate L v =
     (case v of
        JObj d \<Rightarrow>
          (let r1 = required ''display_name_en'' d (str_type L);
               r2 = required ''display_name_nl'' d (str_type L);
               r3 = required ''action_en'' d (str_type L);
               r4 = required ''action_nl'' d (str_type L);
               r5 = required ''instructions_en'' d (str_type L);
               r6 = required ''instructions_nl'' d (str_type L);
               r7 = required ''workplace'' d workplace_field;
               r8 = required ''has_timer'' d (bool_type L);
               r9 = with_default ''timer_minutes'' d None (optional (float_type L));
               r10 = required ''is_first_appearance'' d (bool_type L)
           in case collect [err_of r1, err_of r2, err_of r3, err_of r4, err_of r5,
                            err_of r6, err_of r7, err_of r8, err_of r9, err_of r10] of
                Some e \<Rightarrow> Inl e
              | None \<Rightarrow>
                  Inr \<lparr>display_name_en = projr r1, display_name_nl = projr r2,
                       action_en = projr r3, action_nl = projr r4,
                       instructions_en = projr r5, instructions_nl = projr r6,
                       workplace = projr r7, has_timer = projr r8,
                       timer_minutes = projr r9, is_first_appearance = projr r10\<rparr>)
      | _ \<Rightarrow> invalid)"

record SousChefRecipe =
  generic_name_en :: string
  generic_name_nl :: string
  recipe_name_en :: string
  recipe_name_nl :: string
  description_en :: string
  description_nl :: string
  difficulty :: string
  servings :: int
  prep_time_minutes :: int
  cook_time_minutes :: int
  calories_per_person :: "int option"
  protein_g :: "real option"
  carbs_g :: "real option"
  fat_g :: "real option"
  ingredients :: "Ingredient list"
  steps :: "RecipeStep list"

definition difficulties :: "string list" where
  "difficulties = [''Easy'', ''Medium'', ''Intermediate'']"

definition renames :: "(string \<times> string) list" where
  "renames =
     [(''calories_per_serving'', ''calories_per_person''),
      (''protein_g_per_serving'', ''protein_g''),
      (''carbs_g_per_serving'', ''carbs_g''),
      (''fat_g_per_serving'', ''fat_g'')]"

text \<open>One round of the loop of \<^verbatim>\<open>fix_field_names\<close>: \<^verbatim>\<open>v[new] = v.pop(old)\<close> when
  \<^verbatim>\<open>old in v and new not in v\<close>.\<close>

definition rename :: "string \<times> string \<Rightarrow> dict \<Rightarrow> dict" where
  "rename p v =
     (case p of (old, new) \<Rightarrow>
        if v old \<noteq> None \<and> v new = None then (v(old := None))(new := v old) else v)"

definition fix_field_names :: "dict \<Rightarrow> dict" where
  "fix_field_names v = fold rename renames v"

definition difficulty_mapping :: "(string \<times> string) list" where
  "difficulty_mapping =
     [(''Moderate'', ''Medium''),
      (''Hard'', ''Intermediate''),
      (''Advanced'', ''Intermediate''),
      (''Beginner'', ''Easy''),
      (''Simple'', ''Easy'')]"

definition fix_difficulty :: "json \<Rightarrow> error + json" where
  "fix_difficulty v = dict_get difficulty_mapping v"

definition difficulty_field :: "json \<Rightarrow> error + string" where
  "difficulty_field v = and_then (fix_difficulty v) (literal difficulties)"

definition fix_difficulty_by_steps :: "SousChefRecipe \<Rightarrow> SousChefRecipe" where
  "fix_difficulty_by_steps self =
     (let step_count = length (steps self) in
      if step_count \<le> 6 then self\<lparr>difficulty := ''Easy''\<rparr>
      else if step_count \<le> 11 then self\<lparr>difficulty := ''Medium''\<rparr>
      else self\<lparr>difficulty := ''Intermediate''\<rparr>)"

text \<open>The fields of \<^verbatim>\<open>SousChefRecipe\<close>, read from a dictionary; keys that are not
  fields are ignored.\<close>

definition SousChefRecipe_fields :: "coercions \<Rightarrow> dict \<Rightarrow> error + SousChefRecipe" where
  "SousChefRecipe_fields L d =
     (let r1 = required ''generic_name_en'' d (str_type L);
          r2 = required ''generic_name_nl'' d (str_type L);
          r3 = required ''recipe_name_en'' d (str_type L);
          r4 = required ''recipe_name_nl'' d (str_type L);
          r5 = required ''description_en'' d (str_type L);
          r6 = required ''description_nl'' d (str_type L);
          r7 = required ''difficulty'' d difficulty_field;
          r8 = required ''servings'' d (int_type L);
          r9 = required ''prep_time_minutes'' d (int_type L);
          r10 = required ''cook_time_minutes'' d (int_type L);
          r11 = with_default ''calories_per_person'' d (Some 0) (optional (int_type L));
          r12 = with_default ''protein_g'' d (Some 0) (optional (float_type L));
          r13 = with_default ''carbs_g'' d (Some 0) (optional (float_type L));
          r14 = with_default ''fat_g'' d (Some 0) (optional (float_type L));
          r15 = required ''ingredients'' d (list_type (Ingredient_validate L));
          r16 = required ''steps'' d (list_type (RecipeStep_validate L))
      in case collect [err_of r1, err_of r2, err_of r3, err_of r4, err_of r5, err_of r6,
                       err_of r7, err_of r8, err_of r9, err_of r10, err_of r11, err_of r12,
                       err_of r13, err_of r14, err_of r15, err_of r16] of
           Some e \<Rightarrow> Inl e
         | None \<Rightarrow>
             Inr \<lparr>generic_name_en = projr r1, generic_name_nl = projr r2,
                  recipe_name_en = projr r3, recipe_name_nl = projr r4,
                  description_en = projr r5, description_nl = projr r6,
                  difficulty = projr r7, servings = projr r8,
                  prep_time_minutes = projr r9, cook_time_minutes = projr r10,
                  calories_per_person = projr r11, protein_g = projr r12,
                  carbs_g = projr r13, fat_g = projr r14,
                  ingredients = projr r15, steps = projr r16\<rparr>)"

text \<open>Validation of a raw mapping: the \<^verbatim>\<open>mode="before"\<close> model validator, the fields
  (each with its own before-validator), then the \<^verbatim>\<open>mode="after"\<close> model validator.\<close>

definition SousChefRecipe_validate :: "coercions \<Rightarrow> dict \<Rightarrow> error + SousChefRecipe" where
  "SousChefRecipe_validate L v =
     and_then (SousChefRecipe_fields L (fix_field_names v))
       (\<lambda>self. Inr (fix_difficulty_by_steps self))"

text \<open>\<^verbatim>\<open>model_dump()\<close>: every field under its own name, nested models as dictionaries,
  \<^verbatim>\<open>None\<close> as null. The export writes this value with \<^verbatim>\<open>json.dumps\<close>; the JSON text
  and its decoding belong to Python's \<^verbatim>\<open>json\<close> module and are taken to give the
  same value back.\<close>

definition dump_opt :: "('a \<Rightarrow> json) \<Rightarrow> 'a option \<Rightarrow> json" where
  "dump_opt f x = (case x of None \<Rightarrow> JNull | Some y \<Rightarrow> f y)"

definition Ingredient_dump :: "Ingredient \<Rightarrow> json" where
  "Ingredient_dump i =
     JObj (map_of
       [(''name_en'', JStr (name_en i)),
        (''name_nl'', JStr (name_nl i)),
        (''quantity'', dump_opt JStr (quantity i))])"

definition RecipeStep_dump :: "RecipeStep \<Rightarrow> json" where
  "RecipeStep_dump s =
     JObj (map_of
       [(''display_name_en'', JStr (display_name_en s)),
        (''display_name_nl'', JStr (display_name_nl s)),
        (''action_en'', JStr (action_en s)),
        (''action_nl'', JStr (action_nl s)),
        (''instructions_en'', JStr (instructions_en s)),
        (''instructions_nl'', JStr (instructions_nl s)),
        (''workplace'', JStr (workplace s)),
        (''has_timer'', JBool (has_timer s)),
        (''timer_minutes'', dump_opt JFloat (timer_minutes s)),
        (''is_first_appearance'', JBool (is_first_appearance s))])"

definition model_dump :: "SousChefRecipe \<Rightarrow> dict" where
  "model_dump r =
     map_of
       [(''generic_name_en'', JStr (generic_name_en r)),
        (''generic_name_nl'', JStr (generic_name_nl r)),
        (''recipe_name_en'', JStr (recipe_name_en r)),
        (''recipe_name_nl'', JStr (recipe_name_nl r)),
        (''description_en'', JStr (description_en r)),
        (''description_nl'', JStr (description_nl r)),
        (''difficulty'', JStr (difficulty r)),
        (''servings'', JInt (servings r)),
        (''prep_time_minutes'', JInt (prep_time_minutes r)),
        (''cook_time_minutes'', JInt (cook_time_minutes r)),
        (''calories_per_person'', dump_opt JInt (calories_per_person r)),
        (''protein_g'', dump_opt JFloat (protein_g r)),
        (''carbs_g'', dump_opt JFloat (carbs_g r)),
        (''fat_g'', dump_opt JFloat (fat_g r)),
        (''ingredients'', JArr (map Ingredient_dump (ingredients r))),
        (''steps'', JArr (map RecipeStep_dump (steps r)))]"

section \<open>The workflow\<close>

text \<open>\<^verbatim>\<open>AgentState\<close> is a \<^verbatim>\<open>TypedDict\<close> with \<^verbatim>\<open>total=False\<close>: every key may be absent.\<close>

record AgentState =
  raw_recipe :: "string option"
  parsed_recipe :: "SousChefRecipe option"
  critique :: "string option"
  final_recipe :: "SousChefRecipe option"
  attempts :: "int option"

text \<open>
  The three prompts are the templates filled with the raw text, with the candidate's
  JSON, and with the candidate's JSON and the critique; a prompt is modelled by the
  values it is filled with. The language model is outside the repository and not
  deterministic: it is a parameter, which answers the \<open>n\<close>-th call of a run (counted
  from 0) with a decoded JSON object or with free text, or fails.
\<close>

datatype prompt =
    transform_prompt string
  | critique_prompt SousChefRecipe
  | repair_prompt SousChefRecipe string

record llm =
  structured_output :: "nat \<Rightarrow> prompt \<Rightarrow> error + dict"
  text_output :: "nat \<Rightarrow> prompt \<Rightarrow> error + string"

datatype node = Transform | Critique | Repair | Finalize

text \<open>\<^verbatim>\<open>state.get(key, default)\<close>.\<close>

definition get_or :: "'a option \<Rightarrow> 'a \<Rightarrow> 'a" where
  "get_or x dflt = (case x of None \<Rightarrow> dflt | Some y \<Rightarrow> y)"

text \<open>A node returns the keys it sets; the graph writes them over the state. Each node
  is modelled by the state after that update.\<close>

definition transform_node :: "coercions \<Rightarrow> llm \<Rightarrow> nat \<Rightarrow> AgentState \<Rightarrow> error + AgentState" where
  "transform_node L M n state =
     (case raw_recipe state of
        None \<Rightarrow> Inl (KeyError ''raw_recipe'')
      | Some raw \<Rightarrow>
          and_then (structured_output M n (transform_prompt raw)) (\<lambda>d.
          and_then (SousChefRecipe_validate L d) (\<lambda>recipe.
          Inr (state\<lparr>parsed_recipe := Some recipe, attempts := Some 0\<rparr>))))"

definition critique_node :: "llm \<Rightarrow> nat \<Rightarrow> AgentState \<Rightarrow> error + AgentState" where
  "critique_node M n state =
     (case parsed_recipe state of
        None \<Rightarrow> Inl (KeyError ''parsed_recipe'')
      | Some recipe \<Rightarrow>
          and_then (text_output M n (critique_prompt recipe)) (\<lambda>response.
          Inr (state\<lparr>critique := Some response\<rparr>)))"

definition repair_node :: "coercions \<Rightarrow> llm \<Rightarrow> nat \<Rightarrow> AgentState \<Rightarrow> error + AgentState" where
  "repair_node L M n state =
     (case parsed_recipe state of
        None \<Rightarrow> Inl (KeyError ''parsed_recipe'')
      | Some recipe \<Rightarrow>
          (case critique state of
             None \<Rightarrow> Inl (KeyError ''critique'')
           | Some c \<Rightarrow>
               and_then (structured_output M n (repair_prompt recipe c)) (\<lambda>d.
               and_then (SousChefRecipe_validate L d) (\<lambda>fixed.
               Inr (state\<lparr>parsed_recipe := Some fixed,
                          attempts := Some (get_or (attempts state) 0 + 1)\<rparr>)))))"

definition finalize_node :: "AgentState \<Rightarrow> error + AgentState" where
  "finalize_node state =
     (case parsed_recipe state of
        None \<Rightarrow> Inl (KeyError ''parsed_recipe'')
      | Some recipe \<Rightarrow> Inr (state\<lparr>final_recipe := Some recipe\<rparr>))"

text \<open>Python's \<^verbatim>\<open>sub in s\<close> on strings.\<close>

fun contains :: "string \<Rightarrow> string \<Rightarrow> bool" where
  "contains sub [] = (sub = [])"
| "contains sub (c # cs) = (prefix sub (c # cs) \<or> contains sub cs)"

definition should_repair_or_finalize :: "AgentState \<Rightarrow> string" where
  "should_repair_or_finalize state =
     (let crit = get_or (critique state) [];
          att = get_or (attempts state) 0
      in if contains ''APPROVED'' crit then ''finalize''
         else if att \<ge> 2 then ''finalize''
         else ''repair'')"

text \<open>The conditional edges out of \<^verbatim>\<open>critique\<close>.\<close>

definition conditional_edges :: "(string \<times> node) list" where
  "conditional_edges = [(''repair'', Repair), (''finalize'', Finalize)]"

text \<open>
  The compiled graph: \<^verbatim>\<open>transform\<close>, then \<^verbatim>\<open>critique\<close>; after \<^verbatim>\<open>critique\<close> the
  conditional edge chosen by \<^verbatim>\<open>should_repair_or_finalize\<close>; \<^verbatim>\<open>repair\<close> goes back to
  \<^verbatim>\<open>critique\<close>, \<^verbatim>\<open>finalize\<close> ends the run. A run is the list of the nodes entered
  and the final state, or the exception that ended it (the graph catches none). Each
  of \<^verbatim>\<open>transform\<close>, \<^verbatim>\<open>critique\<close> and \<^verbatim>\<open>repair\<close> calls the language model once, so
  the calls of a run are counted by \<open>n\<close>.
\<close>

function critique_loop ::
  "coercions \<Rightarrow> llm \<Rightarrow> nat \<Rightarrow> AgentState \<Rightarrow> node list \<times> (error + AgentState)" where
  "critique_loop L M n state =
     (case critique_node M n state of
        Inl e \<Rightarrow> ([Critique], Inl e)
      | Inr state1 \<Rightarrow>
          (case map_of conditional_edges (should_repair_or_finalize state1) of
             Some Repair \<Rightarrow>
               (case repair_node L M (Suc n) state1 of
                  Inl e \<Rightarrow> ([Critique, Repair], Inl e)
                | Inr state2 \<Rightarrow>
                    (case critique_loop L M (Suc (Suc n)) state2 of
                       (trace, result) \<Rightarrow> (Critique # Repair # trace, result)))
           | Some Finalize \<Rightarrow> ([Critique, Finalize], finalize_node state1)
           | _ \<Rightarrow> ([Critique], Inl (KeyError (should_repair_or_finalize state1)))))"
  by pat_completeness auto
termination
proof (relation "measure (\<lambda>(L, M, n, state). nat (2 - get_or (attempts state) 0))", goal_cases)
  case 1
  show ?case by simp
next
  case (2 L M n state state1 nd state2)
  from 2(1) have a1: "attempts state1 = attempts state"
    by (auto simp: critique_node_def and_then_def split: option.splits sum.splits)
  from 2(2,3) have lt: "get_or (attempts state1) 0 < 2"
    by (auto simp: conditional_edges_def should_repair_or_finalize_def Let_def
        split: if_splits)
  from 2(4) have a2: "attempts state2 = Some (get_or (attempts state1) 0 + 1)"
    by (auto simp: repair_node_def and_then_def split: option.splits sum.splits)
  from a1 lt a2 show ?case by (simp add: get_or_def)
qed

text \<open>The equation of the loop is unfolded by hand, one round at a time.\<close>

declare critique_loop.simps [simp del]

definition agent_invoke ::
  "coercions \<Rightarrow> llm \<Rightarrow> AgentState \<Rightarrow> node list \<times> (error + AgentState)" where
  "agent_invoke L M input =
     (case transform_node L M 0 input of
        Inl e \<Rightarrow> ([Transform], Inl e)
      | Inr state \<Rightarrow>
          (case critique_loop L M 1 state of (trace, result) \<Rightarrow> (Transform # trace, result)))"

section \<open>The page\<close>

text \<open>
  One rerun of the Streamlit script, given whether the button was pressed and the
  content of the text area. The outcome is the list of workflow nodes entered and the
  status element shown in the right column; the metrics, the step list and the
  download buttons that follow \<^verbatim>\<open>st.success\<close> are not modelled.
\<close>

datatype status = st_success string | st_error error | st_warning string | st_info string

definition app :: "coercions \<Rightarrow> llm \<Rightarrow> bool \<Rightarrow> string \<Rightarrow> node list \<times> status" where
  "app L M transform_btn recipe_input =
     (if transform_btn \<and> recipe_input \<noteq> [] then
        (case agent_invoke L M
                \<lparr>raw_recipe = Some recipe_input, parsed_recipe = None, critique = None,
                 final_recipe = None, attempts = None\<rparr> of
           (trace, Inl e) \<Rightarrow> (trace, st_error e)
         | (trace, Inr result) \<Rightarrow>
             (case final_recipe result of
                None \<Rightarrow> (trace, st_error (KeyError ''final_recipe''))
              | Some recipe \<Rightarrow> (trace, st_success (''Done: '' @ recipe_name_en recipe))))
      else if transform_btn \<and> \<not> recipe_input \<noteq> [] then
        ([], st_warning ''Please paste a recipe first!'')
      else
        ([], st_info ''Paste a recipe on the left and click Transform''))"

section \<open>Sample values\<close>

text \<open>The conversion table that converts nothing, and the example record of the
  transform prompt (shortened), with the workplace of its step, the difficulty, the
  numbers and the number of steps left open.\<close>

definition no_coercion :: coercions where
  "no_coercion =
     \<lparr>lax_str = (\<lambda>_. None), lax_int = (\<lambda>_. None), lax_float = (\<lambda>_. None),
      lax_bool = (\<lambda>_. None)\<rparr>"

definition sample_step :: "json \<Rightarrow> dict" where
  "sample_step w =
     map_of
       [(''display_name_en'', JStr ''Onion''),
        (''display_name_nl'', JStr ''Ui''),
        (''action_en'', JStr ''Peel and chop''),
        (''action_nl'', JStr ''Schillen en snijden''),
        (''instructions_en'', JStr ''Peel the onion.''),
        (''instructions_nl'', JStr ''Schil de ui.''),
        (''workplace'', w),
        (''has_timer'', JBool False),
        (''timer_minutes'', JNull),
        (''is_first_appearance'', JBool True)]"

definition sample_step_record :: "string \<Rightarrow> RecipeStep" where
  "sample_step_record w =
     \<lparr>display_name_en = ''Onion'', display_name_nl = ''Ui'',
      action_en = ''Peel and chop'', action_nl = ''Schillen en snijden'',
      instructions_en = ''Peel the onion.'', instructions_nl = ''Schil de ui.'',
      workplace = w, has_timer = False, timer_minutes = None,
      is_first_appearance = True\<rparr>"

definition sample_raw :: "json \<Rightarrow> int \<Rightarrow> int \<Rightarrow> real \<Rightarrow> json list \<Rightarrow> dict" where
  "sample_raw diff n cal g raw_steps =
     map_of
       [(''generic_name_en'', JStr ''Chicken Rice''),
        (''generic_name_nl'', JStr ''Kip Rijst''),
        (''recipe_name_en'', JStr ''One-pan Chicken''),
        (''recipe_name_nl'', JStr ''Kip in een pan''),
        (''description_en'', JStr ''Easy.''),
        (''description_nl'', JStr ''Makkelijk.''),
        (''difficulty'', diff),
        (''servings'', JInt n),
        (''prep_time_minutes'', JInt n),
        (''cook_time_minutes'', JInt n),
        (''calories_per_person'', JInt cal),
        (''protein_g'', JFloat g),
        (''carbs_g'', JFloat g),
        (''fat_g'', JFloat g),
        (''ingredients'',
           JArr [JObj (map_of [(''name_en'', JStr ''Onion''), (''name_nl'', JStr ''Ui'')])]),
        (''steps'', JArr raw_steps)]"

definition sample_recipe ::
  "string \<Rightarrow> int \<Rightarrow> int \<Rightarrow> real \<Rightarrow> RecipeStep list \<Rightarrow> SousChefRecipe" where
  "sample_recipe diff n cal g step_records =
     \<lparr>generic_name_en = ''Chicken Rice'', generic_name_nl = ''Kip Rijst'',
      recipe_name_en = ''One-pan Chicken'', recipe_name_nl = ''Kip in een pan'',
      description_en = ''Easy.'', description_nl = ''Makkelijk.'',
      difficulty = diff, servings = n, prep_time_minutes = n, cook_time_minutes = n,
      calories_per_person = Some cal, protein_g = Some g, carbs_g = Some g,
      fat_g = Some g,
      ingredients = [\<lparr>name_en = ''Onion'', name_nl = ''Ui'', quantity = Some ''to taste''\<rparr>],
      steps = step_records\<rparr>"

text \<open>A run on the sample: a model that answers every structured call with the sample
  record (which says \<open>Hard\<close>) and every critique call with the same text.\<close>

definition sample_llm :: "string \<Rightarrow> llm" where
  "sample_llm answer =
     \<lparr>structured_output = (\<lambda>n p. Inr (sample_raw (JStr ''Hard'') 4 550 35 [])),
      text_output = (\<lambda>n p. Inr answer)\<rparr>"

definition sample_input :: AgentState where
  "sample_input =
     \<lparr>raw_recipe = Some ''Scrambled eggs'', parsed_recipe = None, critique = None,
      final_recipe = None, attempts = None\<rparr>"

definition sample_state :: "string \<Rightarrow> int \<Rightarrow> AgentState" where
  "sample_state answer n =
     \<lparr>raw_recipe = Some ''Scrambled eggs'',
      parsed_recipe = Some (sample_recipe ''Easy'' 4 550 35 []),
      critique = Some answer,
      final_recipe = Some (sample_recipe ''Easy'' 4 550 35 []),
      attempts = Some n\<rparr>"

section \<open>Facts about the validators\<close>

lemma collect_None_iff: "collect es = None \<longleftrightarrow> (\<forall>e \<in> set es. e = None)"
  by (induction es rule: collect.induct) auto

lemma err_of_None: "err_of r = None \<Longrightarrow> r = Inr (projr r)"
  by (cases r) (auto simp: err_of_def)

lemma err_of_Inr [simp]: "err_of (Inr x) = None"
  by (simp add: err_of_def)

lemma and_then_Inr_iff:
  "and_then r f = Inr y \<longleftrightarrow> (\<exists>x. r = Inr x \<and> f x = Inr y)"
  by (cases r) (auto simp: and_then_def)

lemma at_loc_Inr_iff [simp]: "at_loc l r = Inr x \<longleftrightarrow> r = Inr x"
  by (cases "(l, r)" rule: at_loc.cases) auto

lemma required_Inr_iff:
  "required k d f = Inr x \<longleftrightarrow> (\<exists>v. d k = Some v \<and> f v = Inr x)"
  by (auto simp: required_def split: option.splits)

lemma with_default_Inr_iff:
  "with_default k d dflt f = Inr x \<longleftrightarrow>
     (d k = None \<and> x = dflt) \<or> (\<exists>v. d k = Some v \<and> f v = Inr x)"
  by (auto simp: with_default_def split: option.splits)

lemma required_upd_other [simp]:
  "k \<noteq> k' \<Longrightarrow> required k (d(k' := x)) f = required k d f"
  by (simp add: required_def)

lemma with_default_upd_other [simp]:
  "k \<noteq> k' \<Longrightarrow> with_default k (d(k' := x)) dflt f = with_default k d dflt f"
  by (simp add: with_default_def)

text \<open>What an accepted \<^verbatim>\<open>SousChefRecipe\<close> says about the dictionary it was read from.\<close>

lemma fields_ok:
  assumes "SousChefRecipe_fields L d = Inr r"
  shows "required ''generic_name_en'' d (str_type L) = Inr (generic_name_en r)"
    and "required ''generic_name_nl'' d (str_type L) = Inr (generic_name_nl r)"
    and "required ''recipe_name_en'' d (str_type L) = Inr (recipe_name_en r)"
    and "required ''recipe_name_nl'' d (str_type L) = Inr (recipe_name_nl r)"
    and "required ''description_en'' d (str_type L) = Inr (description_en r)"
    and "required ''description_nl'' d (str_type L) = Inr (description_nl r)"
    and "required ''difficulty'' d difficulty_field = Inr (difficulty r)"
    and "required ''servings'' d (int_type L) = Inr (servings r)"
    and "required ''prep_time_minutes'' d (int_type L) = Inr (prep_time_minutes r)"
    and "required ''cook_time_minutes'' d (int_type L) = Inr (cook_time_minutes r)"
    and "with_default ''calories_per_person'' d (Some 0) (optional (int_type L))
           = Inr (calories_per_person r)"
    and "with_default ''protein_g'' d (Some 0) (optional (float_type L)) = Inr (protein_g r)"
    and "with_default ''carbs_g'' d (Some 0) (optional (float_type L)) = Inr (carbs_g r)"
    and "with_default ''fat_g'' d (Some 0) (optional (float_type L)) = Inr (fat_g r)"
    and "required ''ingredients'' d (list_type (Ingredient_validate L)) = Inr (ingredients r)"
    and "required ''steps'' d (list_type (RecipeStep_validate L)) = Inr (steps r)"
    and "SousChefRecipe.more r = ()"
proof -
  let ?rs = "[err_of (required ''generic_name_en'' d (str_type L)),
      err_of (required ''generic_name_nl'' d (str_type L)),
      err_of (required ''recipe_name_en'' d (str_type L)),
      err_of (required ''recipe_name_nl'' d (str_type L)),
      err_of (required ''description_en'' d (str_type L)),
      err_of (required ''description_nl'' d (str_type L)),
      err_of (required ''difficulty'' d difficulty_field),
      err_of (required ''servings'' d (int_type L)),
      err_of (required ''prep_time_minutes'' d (int_type L)),
      err_of (required ''cook_time_minutes'' d (int_type L)),
      err_of (with_default ''calories_per_person'' d (Some 0) (optional (int_type L))),
      err_of (with_default ''protein_g'' d (Some 0) (optional (float_type L))),
      err_of (with_default ''carbs_g'' d (Some 0) (optional (float_type L))),
      err_of (with_default ''fat_g'' d (Some 0) (optional (float_type L))),
      err_of (required ''ingredients'' d (list_type (Ingredient_validate L))),
      err_of (required ''steps'' d (list_type (RecipeStep_validate L)))]"
  from assms have c: "collect ?rs = None"
    unfolding SousChefRecipe_fields_def Let_def by (simp split: option.splits)
  with assms have r:
    "r = \<lparr>generic_name_en = projr (required ''generic_name_en'' d (str_type L)),
      generic_name_nl = projr (required ''generic_name_nl'' d (str_type L)),
      recipe_name_en = projr (required ''recipe_name_en'' d (str_type L)),
      recipe_name_nl = projr (required ''recipe_name_nl'' d (str_type L)),
      description_en = projr (required ''description_en'' d (str_type L)),
      description_nl = projr (required ''description_nl'' d (str_type L)),
      difficulty = projr (required ''difficulty'' d difficulty_field),
      servings = projr (required ''servings'' d (int_type L)),
      prep_time_minutes = projr (required ''prep_time_minutes'' d (int_type L)),
      cook_time_minutes = projr (required ''cook_time_minutes'' d (int_type L)),
      calories_per_person =
        projr (with_default ''calories_per_person'' d (Some 0) (optional (int_type L))),
      protein_g = projr (with_default ''protein_g'' d (Some 0) (optional (float_type L))),
      carbs_g = projr (with_default ''carbs_g'' d (Some 0) (optional (float_type L))),
      fat_g = projr (with_default ''fat_g'' d (Some 0) (optional (float_type L))),
      ingredients = projr (required ''ingredients'' d (list_type (Ingredient_validate L))),
      steps = projr (required ''steps'' d (list_type (RecipeStep_validate L)))\<rparr>"
    unfolding SousChefRecipe_fields_def Let_def by simp
  from c have e: "\<forall>e \<in> set ?rs. e = None"
    by (simp only: collect_None_iff)
  have p: "err_of x \<in> set ?rs \<Longrightarrow> x = Inr (projr x)" for x :: "error + 'b"
    using e err_of_None by blast
  show "required ''generic_name_en'' d (str_type L) = Inr (generic_name_en r)"
    and "required ''generic_name_nl'' d (str_type L) = Inr (generic_name_nl r)"
    and "required ''recipe_name_en'' d (str_type L) = Inr (recipe_name_en r)"
    and "required ''recipe_name_nl'' d (str_type L) = Inr (recipe_name_nl r)"
    and "required ''description_en'' d (str_type L) = Inr (description_en r)"
    and "required ''description_nl'' d (str_type L) = Inr (description_nl r)"
    and "required ''difficulty'' d difficulty_field = Inr (difficulty r)"
    and "required ''servings'' d (int_type L) = Inr (servings r)"
    and "required ''prep_time_minutes'' d (int_type L) = Inr (prep_time_minutes r)"
    and "required ''cook_time_minutes'' d (int_type L) = Inr (cook_time_minutes r)"
    and "with_default ''calories_per_person'' d (Some 0) (optional (int_type L))
           = Inr (calories_per_person r)"
    and "with_default ''protein_g'' d (Some 0) (optional (float_type L)) = Inr (protein_g r)"
    and "with_default ''carbs_g'' d (Some 0) (optional (float_type L)) = Inr (carbs_g r)"
    and "with_default ''fat_g'' d (Some 0) (optional (float_type L)) = Inr (fat_g r)"
    and "required ''ingredients'' d (list_type (Ingredient_validate L)) = Inr (ingredients r)"
    and "required ''steps'' d (list_type (RecipeStep_validate L)) = Inr (steps r)"
    and "SousChefRecipe.more r = ()"
    by (simp_all add: r p)
qed

lemma step_fields_ok:
  assumes "RecipeStep_validate L (JObj d) = Inr s"
  shows "required ''display_name_en'' d (str_type L) = Inr (display_name_en s)"
    and "required ''display_name_nl'' d (str_type L) = Inr (display_name_nl s)"
    and "required ''action_en'' d (str_type L) = Inr (action_en s)"
    and "required ''action_nl'' d (str_type L) = Inr (action_nl s)"
    and "required ''instructions_en'' d (str_type L) = Inr (instructions_en s)"
    and "required ''instructions_nl'' d (str_type L) = Inr (instructions_nl s)"
    and "required ''workplace'' d workplace_field = Inr (workplace s)"
    and "required ''has_timer'' d (bool_type L) = Inr (has_timer s)"
    and "with_default ''timer_minutes'' d None (optional (float_type L)) = Inr (timer_minutes s)"
    and "required ''is_first_appearance'' d (bool_type L) = Inr (is_first_appearance s)"
    and "RecipeStep.more s = ()"
proof -
  let ?rs = "[err_of (required ''display_name_en'' d (str_type L)),
      err_of (required ''display_name_nl'' d (str_type L)),
      err_of (required ''action_en'' d (str_type L)),
      err_of (required ''action_nl'' d (str_type L)),
      err_of (required ''instructions_en'' d (str_type L)),
      err_of (required ''instructions_nl'' d (str_type L)),
      err_of (required ''workplace'' d workplace_field),
      err_of (required ''has_timer'' d (bool_type L)),
      err_of (with_default ''timer_minutes'' d None (optional (float_type L))),
      err_of (required ''is_first_appearance'' d (bool_type L))]"
  from assms have c: "collect ?rs = None"
    unfolding RecipeStep_validate_def Let_def by (simp split: option.splits)
  with assms have s:
    "s = \<lparr>display_name_en = projr (required ''display_name_en'' d (str_type L)),
      display_name_nl = projr (required ''display_name_nl'' d (str_type L)),
      action_en = projr (required ''action_en'' d (str_type L)),
      action_nl = projr (required ''action_nl'' d (str_type L)),
      instructions_en = projr (required ''instructions_en'' d (str_type L)),
      instructions_nl = projr (required ''instructions_nl'' d (str_type L)),
      workplace = projr (required ''workplace'' d workplace_field),
      has_timer = projr (required ''has_timer'' d (bool_type L)),
      timer_minutes = projr (with_default ''timer_minutes'' d None (optional (float_type L))),
      is_first_appearance = projr (required ''is_first_appearance'' d (bool_type L))\<rparr>"
    unfolding RecipeStep_validate_def Let_def by simp
  from c have e: "\<forall>e \<in> set ?rs. e = None"
    by (simp only: collect_None_iff)
  have p: "err_of x \<in> set ?rs \<Longrightarrow> x = Inr (projr x)" for x :: "error + 'b"
    using e err_of_None by blast
  show "required ''display_name_en'' d (str_type L) = Inr (display_name_en s)"
    and "required ''display_name_nl'' d (str_type L) = Inr (display_name_nl s)"
    and "required ''action_en'' d (str_type L) = Inr (action_en s)"
    and "required ''action_nl'' d (str_type L) = Inr (action_nl s)"
    and "required ''instructions_en'' d (str_type L) = Inr (instructions_en s)"
    and "required ''instructions_nl'' d (str_type L) = Inr (instructions_nl s)"
    and "required ''workplace'' d workplace_field = Inr (workplace s)"
    and "required ''has_timer'' d (bool_type L) = Inr (has_timer s)"
    and "with_default ''timer_minutes'' d None (optional (float_type L)) = Inr (timer_minutes s)"
    and "required ''is_first_appearance'' d (bool_type L) = Inr (is_first_appearance s)"
    and "RecipeStep.more s = ()"
    by (simp_all add: s p)
qed

text \<open>Conversely, a dictionary whose fields are all accepted is accepted.\<close>

lemma step_fieldsI:
  assumes "required ''display_name_en'' d (str_type L) = Inr a1"
    and "required ''display_name_nl'' d (str_type L) = Inr a2"
    and "required ''action_en'' d (str_type L) = Inr a3"
    and "required ''action_nl'' d (str_type L) = Inr a4"
    and "required ''instructions_en'' d (str_type L) = Inr a5"
    and "required ''instructions_nl'' d (str_type L) = Inr a6"
    and "required ''workplace'' d workplace_field = Inr a7"
    and "required ''has_timer'' d (bool_type L) = Inr a8"
    and "with_default ''timer_minutes'' d None (optional (float_type L)) = Inr a9"
    and "required ''is_first_appearance'' d (bool_type L) = Inr a10"
  shows "RecipeStep_validate L (JObj d) =
     Inr \<lparr>display_name_en = a1, display_name_nl = a2, action_en = a3, action_nl = a4,
          instructions_en = a5, instructions_nl = a6, workplace = a7, has_timer = a8,
          timer_minutes = a9, is_first_appearance = a10\<rparr>"
  unfolding RecipeStep_validate_def Let_def by (simp add: assms)

lemma fieldsI:
  assumes "required ''generic_name_en'' d (str_type L) = Inr a1"
    and "required ''generic_name_nl'' d (str_type L) = Inr a2"
    and "required ''recipe_name_en'' d (str_type L) = Inr a3"
    and "required ''recipe_name_nl'' d (str_type L) = Inr a4"
    and "required ''description_en'' d (str_type L) = Inr a5"
    and "required ''description_nl'' d (str_type L) = Inr a6"
    and "required ''difficulty'' d difficulty_field = Inr a7"
    and "required ''servings'' d (int_type L) = Inr a8"
    and "required ''prep_time_minutes'' d (int_type L) = Inr a9"
    and "required ''cook_time_minutes'' d (int_type L) = Inr a10"
    and "with_default ''calories_per_person'' d (Some 0) (optional (int_type L)) = Inr a11"
    and "with_default ''protein_g'' d (Some 0) (optional (float_type L)) = Inr a12"
    and "with_default ''carbs_g'' d (Some 0) (optional (float_type L)) = Inr a13"
    and "with_default ''fat_g'' d (Some 0) (optional (float_type L)) = Inr a14"
    and "required ''ingredients'' d (list_type (Ingredient_validate L)) = Inr a15"
    and "required ''steps'' d (list_type (RecipeStep_validate L)) = Inr a16"
  shows "SousChefRecipe_fields L d =
     Inr \<lparr>generic_name_en = a1, generic_name_nl = a2, recipe_name_en = a3,
          recipe_name_nl = a4, description_en = a5, description_nl = a6, difficulty = a7,
          servings = a8, prep_time_minutes = a9, cook_time_minutes = a10,
          calories_per_person = a11, protein_g = a12, carbs_g = a13, fat_g = a14,
          ingredients = a15, steps = a16\<rparr>"
  unfolding SousChefRecipe_fields_def Let_def by (simp add: assms)

lemma validate_Inr_iff:
  "SousChefRecipe_validate L v = Inr r \<longleftrightarrow>
     (\<exists>r0. SousChefRecipe_fields L (fix_field_names v) = Inr r0 \<and> r = fix_difficulty_by_steps r0)"
  by (auto simp: SousChefRecipe_validate_def and_then_Inr_iff)

lemma steps_fix_difficulty_by_steps [simp]:
  "steps (fix_difficulty_by_steps r) = steps r"
  by (simp add: fix_difficulty_by_steps_def Let_def)

lemma difficulty_fix_difficulty_by_steps:
  "difficulty (fix_difficulty_by_steps r) =
     (if length (steps r) \<le> 6 then ''Easy''
      else if length (steps r) \<le> 11 then ''Medium'' else ''Intermediate'')"
  by (simp add: fix_difficulty_by_steps_def Let_def)

lemma validated_difficulty:
  "SousChefRecipe_validate L v = Inr r \<Longrightarrow>
     difficulty r =
       (if length (steps r) \<le> 6 then ''Easy''
        else if length (steps r) \<le> 11 then ''Medium'' else ''Intermediate'')"
  by (auto simp: validate_Inr_iff difficulty_fix_difficulty_by_steps)

section \<open>Facts about the workflow\<close>

lemma transform_node_Inr:
  "transform_node L M n state = Inr s1 \<Longrightarrow>
     \<exists>raw d r. raw_recipe state = Some raw \<and>
       structured_output M n (transform_prompt raw) = Inr d \<and>
       SousChefRecipe_validate L d = Inr r \<and>
       s1 = state\<lparr>parsed_recipe := Some r, attempts := Some 0\<rparr>"
  by (auto simp: transform_node_def and_then_Inr_iff split: option.splits)

lemma critique_node_Inr:
  "critique_node M n state = Inr s1 \<Longrightarrow>
     \<exists>r c. parsed_recipe state = Some r \<and> text_output M n (critique_prompt r) = Inr c \<and>
       s1 = state\<lparr>critique := Some c\<rparr>"
  by (auto simp: critique_node_def and_then_Inr_iff split: option.splits)

lemma repair_node_Inr:
  "repair_node L M n state = Inr s2 \<Longrightarrow>
     \<exists>r c d fixed. parsed_recipe state = Some r \<and> critique state = Some c \<and>
       structured_output M n (repair_prompt r c) = Inr d \<and>
       SousChefRecipe_validate L d = Inr fixed \<and>
       s2 = state\<lparr>parsed_recipe := Some fixed,
                  attempts := Some (get_or (attempts state) 0 + 1)\<rparr>"
  by (auto simp: repair_node_def and_then_Inr_iff split: option.splits)

lemma finalize_node_Inr:
  "finalize_node state = Inr s1 \<Longrightarrow>
     \<exists>r. parsed_recipe state = Some r \<and> s1 = state\<lparr>final_recipe := Some r\<rparr>"
  by (auto simp: finalize_node_def split: option.splits)

text \<open>The edge out of \<^verbatim>\<open>critique\<close> always leads to one of the two nodes.\<close>

lemma edge_cases:
  "map_of conditional_edges (should_repair_or_finalize state) =
     (if contains ''APPROVED'' (get_or (critique state) []) \<or> 2 \<le> get_or (attempts state) 0
      then Some Finalize else Some Repair)"
  by (simp add: conditional_edges_def should_repair_or_finalize_def Let_def)

text \<open>One round of the loop, when the run is not ended by an exception.\<close>

lemma critique_loop_Inr:
  assumes "critique_loop L M n state = (trace, Inr result)"
  obtains s1 where "critique_node M n state = Inr s1"
      and "contains ''APPROVED'' (get_or (critique s1) []) \<or> 2 \<le> get_or (attempts s1) 0"
      and "trace = [Critique, Finalize]" and "finalize_node s1 = Inr result"
    | s1 s2 trace' where "critique_node M n state = Inr s1"
      and "\<not> contains ''APPROVED'' (get_or (critique s1) [])" and "get_or (attempts s1) 0 < 2"
      and "repair_node L M (Suc n) s1 = Inr s2"
      and "critique_loop L M (Suc (Suc n)) s2 = (trace', Inr result)"
      and "trace = Critique # Repair # trace'"
  using assms
  by (subst (asm) critique_loop.simps)
    (auto simp: edge_cases split: sum.splits if_splits prod.splits)

text \<open>Whatever a completed run finalizes was produced by the schema validator.\<close>

lemma critique_loop_final:
  assumes "critique_loop L M n state = (trace, Inr result)"
    and "parsed_recipe state = Some r0"
    and "\<exists>d. SousChefRecipe_validate L d = Inr r0"
  shows "\<exists>r d. final_recipe result = Some r \<and> SousChefRecipe_validate L d = Inr r"
  using assms
proof (induction L M n state arbitrary: trace r0 rule: critique_loop.induct)
  case (1 L M n state)
  from "1.prems"(1) show ?case
  proof (cases rule: critique_loop_Inr)
    case (1 s1)
    with "1.prems"(2,3) show ?thesis
      by (auto dest!: critique_node_Inr finalize_node_Inr)
  next
    case (2 s1 s2 trace')
    from 2(4) obtain fixed d where "parsed_recipe s2 = Some fixed"
      "SousChefRecipe_validate L d = Inr fixed"
      by (auto dest!: repair_node_Inr)
    moreover from 2(2,3) have "map_of conditional_edges (should_repair_or_finalize s1) = Some Repair"
      by (simp add: edge_cases)
    ultimately show ?thesis
      using "1.IH"[OF 2(1) _ refl 2(4) 2(5)] by blast
  qed
qed

lemma agent_invoke_final:
  assumes "agent_invoke L M input = (trace, Inr result)"
  shows "\<exists>r d. final_recipe result = Some r \<and> SousChefRecipe_validate L d = Inr r"
proof -
  from assms obtain s1 trace' where t: "transform_node L M 0 input = Inr s1"
    and l: "critique_loop L M 1 s1 = (trace', Inr result)"
    by (auto simp: agent_invoke_def split: sum.splits prod.splits)
  from t obtain r d where "parsed_recipe s1 = Some r" "SousChefRecipe_validate L d = Inr r"
    by (auto dest!: transform_node_Inr)
  with l show ?thesis
    by (blast intro: critique_loop_final)
qed

section \<open>Difficulty\<close>

lemma items_replicate:
  "f x = Inr y \<Longrightarrow> items f i (replicate k x) = Inr (replicate k y)"
  by (induction k arbitrary: i) simp_all

lemma sample_step_ok:
  "RecipeStep_validate L (JObj (sample_step (JStr ''Pan''))) = Inr (sample_step_record ''Pan'')"
  by (simp add: RecipeStep_validate_def sample_step_def sample_step_record_def required_def
      with_default_def str_type_def bool_type_def optional_def workplace_field_def
      fix_workplace_def dict_get_def workplace_mapping_def literal_def and_then_def
      workplaces_def)

lemma fix_field_names_sample [simp]:
  "fix_field_names (sample_raw diff n cal g raw_steps) = sample_raw diff n cal g raw_steps"
  by (simp add: fix_field_names_def renames_def rename_def sample_raw_def)

lemma sample_fields_ok:
  "SousChefRecipe_fields L
     (sample_raw (JStr ''Hard'') n cal g (replicate k (JObj (sample_step (JStr ''Pan'')))))
     = Inr (sample_recipe ''Intermediate'' n cal g (replicate k (sample_step_record ''Pan'')))"
  by (simp add: SousChefRecipe_fields_def sample_raw_def sample_recipe_def required_def
      with_default_def str_type_def int_type_def float_type_def optional_def difficulty_field_def
      fix_difficulty_def dict_get_def difficulty_mapping_def literal_def and_then_def
      difficulties_def list_type_def items_replicate sample_step_ok Ingredient_validate_def)

lemma sample_validate_ok:
  "SousChefRecipe_validate L
     (sample_raw (JStr ''Hard'') n cal g (replicate k (JObj (sample_step (JStr ''Pan'')))))
     = Inr (fix_difficulty_by_steps
         (sample_recipe ''Intermediate'' n cal g (replicate k (sample_step_record ''Pan''))))"
  by (simp add: SousChefRecipe_validate_def sample_fields_ok and_then_def)

text \<open>
  Claim C1. Every record that the schema validator accepts has the difficulty that its
  number of steps fixes: at most 6 steps \<open>Easy\<close>, 7 to 11 steps \<open>Medium\<close>, 12 or more
  \<open>Intermediate\<close>, whatever the raw mapping said. The recipe that a completed run of
  the workflow finalizes is such a record, whether it came from the transform or from a
  repair.
\<close>

theorem difficulty_determined_by_step_count:
  "(SousChefRecipe_validate L v = Inr recipe \<longrightarrow>
      (length (steps recipe) \<le> 6 \<longrightarrow> difficulty recipe = ''Easy'') \<and>
      (7 \<le> length (steps recipe) \<and> length (steps recipe) \<le> 11 \<longrightarrow>
         difficulty recipe = ''Medium'') \<and>
      (12 \<le> length (steps recipe) \<longrightarrow> difficulty recipe = ''Intermediate'')) \<and>
   (agent_invoke L M input = (trace, Inr result) \<longrightarrow>
      (\<exists>final. final_recipe result = Some final \<and>
         (length (steps final) \<le> 6 \<longrightarrow> difficulty final = ''Easy'') \<and>
         (7 \<le> length (steps final) \<and> length (steps final) \<le> 11 \<longrightarrow>
            difficulty final = ''Medium'') \<and>
         (12 \<le> length (steps final) \<longrightarrow> difficulty final = ''Intermediate'')))"
proof (intro conjI impI)
  assume "agent_invoke L M input = (trace, Inr result)"
  then obtain final d where f: "final_recipe result = Some final"
    and v: "SousChefRecipe_validate L d = Inr final"
    using agent_invoke_final by blast
  from validated_difficulty[OF v] f
  show "\<exists>final. final_recipe result = Some final \<and>
         (length (steps final) \<le> 6 \<longrightarrow> difficulty final = ''Easy'') \<and>
         (7 \<le> length (steps final) \<and> length (steps final) \<le> 11 \<longrightarrow>
            difficulty final = ''Medium'') \<and>
         (12 \<le> length (steps final) \<longrightarrow> difficulty final = ''Intermediate'')"
    by auto
qed (auto dest!: validated_difficulty)

text \<open>A raw record that says \<open>Hard\<close> and has seven steps is accepted as \<open>Medium\<close>.\<close>

theorem difficulty_determined_by_step_count_witness:
  "SousChefRecipe_validate no_coercion
     (sample_raw (JStr ''Hard'') 4 550 35 (replicate 7 (JObj (sample_step (JStr ''Pan'')))))
     = Inr (sample_recipe ''Medium'' 4 550 35 (replicate 7 (sample_step_record ''Pan''))) \<and>
   difficulty (sample_recipe ''Medium'' 4 550 35 (replicate 7 (sample_step_record ''Pan'')))
     = ''Medium''"
proof -
  have v: "SousChefRecipe_validate no_coercion
     (sample_raw (JStr ''Hard'') 4 550 35 (replicate 7 (JObj (sample_step (JStr ''Pan'')))))
     = Inr (sample_recipe ''Medium'' 4 550 35 (replicate 7 (sample_step_record ''Pan'')))"
    by (simp add: sample_validate_ok fix_difficulty_by_steps_def sample_recipe_def)
  have l: "length (steps (sample_recipe ''Medium'' 4 550 35 (replicate 7 (sample_step_record ''Pan'')))) = 7"
    by (simp add: sample_recipe_def)
  from difficulty_determined_by_step_count[of no_coercion
      "sample_raw (JStr ''Hard'') 4 550 35 (replicate 7 (JObj (sample_step (JStr ''Pan''))))"
      "sample_recipe ''Medium'' 4 550 35 (replicate 7 (sample_step_record ''Pan''))"] v l
  show ?thesis by simp
qed

section \<open>The synonym tables\<close>

lemma dict_get_idem:
  assumes "snd ` set m \<inter> fst ` set m = {}"
  shows "and_then (dict_get m v) (dict_get m) = dict_get m v"
proof (cases v)
  case (JStr s)
  show ?thesis
  proof (cases "map_of m s")
    case None
    with JStr show ?thesis by (simp add: dict_get_def and_then_def)
  next
    case (Some t)
    then have "t \<in> snd ` set m"
      by (force dest: map_of_SomeD)
    with assms have "t \<notin> fst ` set m" by blast
    then have "map_of m t = None"
      by (simp add: map_of_eq_None_iff)
    with JStr Some show ?thesis by (simp add: dict_get_def and_then_def)
  qed
qed (simp_all add: dict_get_def and_then_def)

lemma workplace_targets_not_keys:
  "snd ` set workplace_mapping \<inter> fst ` set workplace_mapping = {}"
  by (simp add: workplace_mapping_def)

lemma difficulty_targets_not_keys:
  "snd ` set difficulty_mapping \<inter> fst ` set difficulty_mapping = {}"
  by (simp add: difficulty_mapping_def)

text \<open>
  Claim C9. Both synonym remappings are idempotent: for every input value, remapping the
  remapped value gives the remapped value again (and an input on which the lookup
  raises makes the second application moot), because no target of either table is a
  key of that table.
\<close>

theorem remappings_idempotent:
  "and_then (fix_workplace v) fix_workplace = fix_workplace v \<and>
   and_then (fix_difficulty v) fix_difficulty = fix_difficulty v \<and>
   (\<exists>w. fix_workplace (JStr s) = Inr w \<and> fix_workplace w = Inr w) \<and>
   (\<exists>w. fix_difficulty (JStr s) = Inr w \<and> fix_difficulty w = Inr w) \<and>
   snd ` set workplace_mapping \<inter> fst ` set workplace_mapping = {} \<and>
   snd ` set difficulty_mapping \<inter> fst ` set difficulty_mapping = {}"
proof -
  have w: "and_then (fix_workplace u) fix_workplace = fix_workplace u" for u
    unfolding fix_workplace_def
    by (rule dict_get_idem) (rule workplace_targets_not_keys)
  have d: "and_then (fix_difficulty u) fix_difficulty = fix_difficulty u" for u
    unfolding fix_difficulty_def
    by (rule dict_get_idem) (rule difficulty_targets_not_keys)
  have ws: "\<exists>x. fix_workplace (JStr s) = Inr x"
    by (simp add: fix_workplace_def dict_get_def)
  have ds: "\<exists>x. fix_difficulty (JStr s) = Inr x"
    by (simp add: fix_difficulty_def dict_get_def)
  from ws w[of "JStr s"]
  have "\<exists>w. fix_workplace (JStr s) = Inr w \<and> fix_workplace w = Inr w"
    by (auto simp: and_then_def)
  moreover from ds d[of "JStr s"]
  have "\<exists>w. fix_difficulty (JStr s) = Inr w \<and> fix_difficulty w = Inr w"
    by (auto simp: and_then_def)
  ultimately show ?thesis
    using w[of v] d[of v] workplace_targets_not_keys difficulty_targets_not_keys
    by blast
qed

section \<open>Workplace\<close>

lemma dict_get_Inr_JStr:
  "dict_get m v = Inr (JStr w) \<Longrightarrow> v \<in> JStr ` fst ` set m \<or> v = JStr w"
  by (cases v) (auto simp: dict_get_def split: option.splits dest!: map_of_SomeD intro!: image_eqI)

lemma dict_get_key:
  "map_of m k = Some t \<Longrightarrow> dict_get m (JStr k) = Inr (JStr t)"
  by (simp add: dict_get_def)

lemma dict_get_other:
  "(\<forall>xs. v \<noteq> JArr xs) \<Longrightarrow> (\<forall>ob. v \<noteq> JObj ob) \<Longrightarrow> v \<notin> JStr ` fst ` set m \<Longrightarrow>
     dict_get m v = Inr v"
proof (cases v)
  case (JStr s)
  assume "v \<notin> JStr ` fst ` set m"
  with JStr have "s \<notin> fst ` set m" by blast
  then have "map_of m s = None" by (simp add: map_of_eq_None_iff)
  with JStr show ?thesis by (simp add: dict_get_def)
qed (simp_all add: dict_get_def)

lemma literal_Inr_iff:
  "literal allowed v = Inr w \<longleftrightarrow> v = JStr w \<and> w \<in> set allowed"
  by (cases v) (auto simp: literal_def invalid_def)

lemma workplace_field_Inr:
  "workplace_field v = Inr w \<Longrightarrow>
     w \<in> set workplaces \<and> (v \<in> JStr ` fst ` set workplace_mapping \<or> v = JStr w)"
  by (auto simp: workplace_field_def fix_workplace_def and_then_Inr_iff literal_Inr_iff
      dest!: dict_get_Inr_JStr)

text \<open>When no validator raises, the outcome of the fields is a validation error that
  lists what each failing field lists.\<close>

lemma collect_validation_kind:
  assumes "\<forall>x. Some x \<in> set es \<longrightarrow> (\<exists>a. x = ValidationError a)"
    and "collect es = Some e"
  shows "\<exists>a. e = ValidationError a"
  using assms
proof (induction es arbitrary: e rule: collect.induct)
  case 1
  then show ?case by simp
next
  case (2 es)
  then show ?case by auto
next
  case (3 e0 es)
  from "3.prems"(1) obtain a0 where e0: "e0 = ValidationError a0" by auto
  show ?case
  proof (cases "collect es")
    case None
    with "3.prems"(2) e0 show ?thesis by auto
  next
    case (Some e')
    with "3.IH"[of e'] "3.prems"(1) obtain a' where "e' = ValidationError a'" by auto
    with Some "3.prems"(2) e0 show ?thesis by auto
  qed
qed

lemma collect_validation:
  assumes "\<forall>x. Some x \<in> set es \<longrightarrow> (\<exists>a. x = ValidationError a)"
    and "Some (ValidationError b) \<in> set es"
  shows "\<exists>a. collect es = Some (ValidationError a) \<and> set b \<subseteq> set a"
  using assms
proof (induction es rule: collect.induct)
  case 1
  then show ?case by simp
next
  case (2 es)
  then show ?case by auto
next
  case (3 e es)
  from "3.prems"(1) obtain a0 where e: "e = ValidationError a0" by auto
  from "3.prems"(1) have rest: "\<forall>x. Some x \<in> set es \<longrightarrow> (\<exists>a. x = ValidationError a)"
    by auto
  show ?case
  proof (cases "collect es")
    case None
    then have "\<forall>x \<in> set es. x = None" by (simp add: collect_None_iff)
    with "3.prems"(2) e have "b = a0" by auto
    with None e show ?thesis by simp
  next
    case (Some e')
    from collect_validation_kind[OF rest Some] obtain a' where e': "e' = ValidationError a'" ..
    show ?thesis
    proof (cases "Some (ValidationError b) \<in> set es")
      case True
      with "3.IH" rest Some e' have "set b \<subseteq> set a'" by auto
      with Some e e' show ?thesis by auto
    next
      case False
      with "3.prems"(2) e have "b = a0" by auto
      with Some e e' show ?thesis by auto
    qed
  qed
qed

lemma str_type_no_exception:
  "str_type L v = Inl x \<Longrightarrow> \<exists>a. x = ValidationError a"
  by (auto simp: str_type_def lax_def invalid_def split: json.splits option.splits)

lemma bool_type_no_exception:
  "bool_type L v = Inl x \<Longrightarrow> \<exists>a. x = ValidationError a"
  by (auto simp: bool_type_def lax_def invalid_def split: json.splits option.splits)

lemma int_type_no_exception:
  "int_type L v = Inl x \<Longrightarrow> \<exists>a. x = ValidationError a"
  by (auto simp: int_type_def lax_def invalid_def split: json.splits option.splits)

lemma float_type_no_exception:
  "float_type L v = Inl x \<Longrightarrow> \<exists>a. x = ValidationError a"
  by (auto simp: float_type_def lax_def invalid_def split: json.splits option.splits if_splits)

lemma optional_no_exception:
  assumes "\<And>v x. f v = Inl x \<Longrightarrow> \<exists>a. x = ValidationError a"
  shows "optional f v = Inl x \<Longrightarrow> \<exists>a. x = ValidationError a"
  using assms[of v x]
  by (cases "f v") (auto simp: optional_def and_then_def split: json.splits)

lemma required_no_exception:
  assumes "\<And>v x. f v = Inl x \<Longrightarrow> \<exists>a. x = ValidationError a"
  shows "err_of (required k d f) = Some x \<Longrightarrow> \<exists>a. x = ValidationError a"
proof (cases "d k")
  case None
  assume "err_of (required k d f) = Some x"
  with None show ?thesis by (auto simp: required_def err_of_def)
next
  case (Some v)
  assume e: "err_of (required k d f) = Some x"
  show ?thesis
  proof (cases "f v")
    case (Inl y)
    with assms obtain a where "y = ValidationError a" by blast
    with Inl Some e show ?thesis by (auto simp: required_def err_of_def)
  next
    case (Inr y)
    with Some e show ?thesis by (simp add: required_def err_of_def)
  qed
qed

lemma with_default_no_exception:
  assumes "\<And>v x. f v = Inl x \<Longrightarrow> \<exists>a. x = ValidationError a"
  shows "err_of (with_default k d dflt f) = Some x \<Longrightarrow> \<exists>a. x = ValidationError a"
proof (cases "d k")
  case None
  assume "err_of (with_default k d dflt f) = Some x"
  with None show ?thesis by (auto simp: with_default_def err_of_def)
next
  case (Some v)
  assume e: "err_of (with_default k d dflt f) = Some x"
  show ?thesis
  proof (cases "f v")
    case (Inl y)
    with assms obtain a where "y = ValidationError a" by blast
    with Inl Some e show ?thesis by (auto simp: with_default_def err_of_def)
  next
    case (Inr y)
    with Some e show ?thesis by (simp add: with_default_def err_of_def)
  qed
qed

lemma field_kinds:
  "Some x = err_of (required k d (str_type L)) \<Longrightarrow> \<exists>a. x = ValidationError a"
  "Some x = err_of (required k d (bool_type L)) \<Longrightarrow> \<exists>a. x = ValidationError a"
  "Some x = err_of (required k d (int_type L)) \<Longrightarrow> \<exists>a. x = ValidationError a"
  "Some x = err_of (with_default k d df (optional (float_type L))) \<Longrightarrow>
     \<exists>a. x = ValidationError a"
  "Some x = err_of (with_default k d di (optional (int_type L))) \<Longrightarrow>
     \<exists>a. x = ValidationError a"
proof -
  show "Some x = err_of (required k d (str_type L)) \<Longrightarrow> \<exists>a. x = ValidationError a"
    by (rule required_no_exception[where f = "str_type L" and k = k and d = d])
      (erule str_type_no_exception, erule sym)
  show "Some x = err_of (required k d (bool_type L)) \<Longrightarrow> \<exists>a. x = ValidationError a"
    by (rule required_no_exception[where f = "bool_type L" and k = k and d = d])
      (erule bool_type_no_exception, erule sym)
  show "Some x = err_of (required k d (int_type L)) \<Longrightarrow> \<exists>a. x = ValidationError a"
    by (rule required_no_exception[where f = "int_type L" and k = k and d = d])
      (erule int_type_no_exception, erule sym)
  show "Some x = err_of (with_default k d df (optional (float_type L))) \<Longrightarrow>
     \<exists>a. x = ValidationError a"
    by (rule with_default_no_exception[where f = "optional (float_type L)" and k = k and d = d
          and dflt = df])
      (erule optional_no_exception[rotated], erule float_type_no_exception, erule sym)
  show "Some x = err_of (with_default k d di (optional (int_type L))) \<Longrightarrow>
     \<exists>a. x = ValidationError a"
    by (rule with_default_no_exception[where f = "optional (int_type L)" and k = k and d = d
          and dflt = di])
      (erule optional_no_exception[rotated], erule int_type_no_exception, erule sym)
qed

text \<open>
  Claim C4. The workplace value of a raw step is looked up in the synonym table before
  the \<^verbatim>\<open>Literal\<close> check: \<open>Wok\<close> becomes \<open>Stove\<close>, and what an accepted step holds
  is the checked result of the lookup. A value that is neither a key of the table nor
  one of the six workplaces, such as \<open>Fireplace\<close>, comes out of the lookup unchanged
  and the step fails validation, with a validation error that lists \<open>workplace\<close>.
  (The lookup is \<^verbatim>\<open>dict.get\<close>: it returns on every value that Python can hash; a
  list or a dictionary makes it raise, which fails the step as well.)
\<close>

theorem workplace_remapped_before_validation:
  "fix_workplace (JStr ''Wok'') = Inr (JStr ''Stove'') \<and>
   (d ''workplace'' = Some v \<and> RecipeStep_validate L (JObj d) = Inr step \<longrightarrow>
      (\<exists>w. fix_workplace v = Inr w \<and> literal workplaces w = Inr (workplace step))) \<and>
   (d ''workplace'' = Some (JStr ''Wok'') \<and> RecipeStep_validate L (JObj d) = Inr step \<longrightarrow>
      workplace step = ''Stove'') \<and>
   ((\<forall>xs. v \<noteq> JArr xs) \<and> (\<forall>ob. v \<noteq> JObj ob) \<and>
    v \<notin> JStr ` fst ` set workplace_mapping \<longrightarrow> fix_workplace v = Inr v) \<and>
   (d ''workplace'' = Some v \<and> v \<notin> JStr ` fst ` set workplace_mapping \<and>
    v \<notin> JStr ` set workplaces \<longrightarrow>
      (\<exists>e. RecipeStep_validate L (JObj d) = Inl e)) \<and>
   (d ''workplace'' = Some v \<and> (\<forall>xs. v \<noteq> JArr xs) \<and> (\<forall>ob. v \<noteq> JObj ob) \<and>
    v \<notin> JStr ` fst ` set workplace_mapping \<and> v \<notin> JStr ` set workplaces \<longrightarrow>
      (\<exists>es. RecipeStep_validate L (JObj d) = Inl (ValidationError es) \<and>
         ([Key ''workplace''], Invalid) \<in> set es)) \<and>
   fix_workplace (JStr ''Fireplace'') = Inr (JStr ''Fireplace'') \<and>
   (d ''workplace'' = Some (JStr ''Fireplace'') \<longrightarrow>
      (\<exists>es. RecipeStep_validate L (JObj d) = Inl (ValidationError es) \<and>
         ([Key ''workplace''], Invalid) \<in> set es))"
proof -
  have wok: "fix_workplace (JStr ''Wok'') = Inr (JStr ''Stove'')"
    by (simp add: fix_workplace_def dict_get_def workplace_mapping_def)
  have accepted: "\<exists>w. fix_workplace u = Inr w \<and> literal workplaces w = Inr (workplace step)"
    if "d ''workplace'' = Some u" "RecipeStep_validate L (JObj d) = Inr step" for u
    using step_fields_ok(7)[OF that(2)] that(1)
    by (auto simp: required_Inr_iff workplace_field_def and_then_Inr_iff)
  have through: "fix_workplace u = Inr u"
    if "\<forall>xs. u \<noteq> JArr xs" "\<forall>ob. u \<noteq> JObj ob" "u \<notin> JStr ` fst ` set workplace_mapping"
    for u
    unfolding fix_workplace_def using that by (rule dict_get_other)
  have fails: "\<exists>e. RecipeStep_validate L (JObj d) = Inl e"
    if "d ''workplace'' = Some u" "u \<notin> JStr ` fst ` set workplace_mapping"
      "u \<notin> JStr ` set workplaces" for u
  proof (cases "RecipeStep_validate L (JObj d)")
    case (Inr s)
    from step_fields_ok(7)[OF Inr] that(1) have "workplace_field u = Inr (workplace s)"
      by (auto simp: required_Inr_iff)
    from workplace_field_Inr[OF this] that(2,3) show ?thesis by auto
  qed simp
  have listed: "\<exists>es. RecipeStep_validate L (JObj d) = Inl (ValidationError es) \<and>
         ([Key ''workplace''], Invalid) \<in> set es"
    if u: "d ''workplace'' = Some u" "\<forall>xs. u \<noteq> JArr xs" "\<forall>ob. u \<noteq> JObj ob"
      "u \<notin> JStr ` fst ` set workplace_mapping" "u \<notin> JStr ` set workplaces" for u
  proof -
    let ?rs = "[err_of (required ''display_name_en'' d (str_type L)),
      err_of (required ''display_name_nl'' d (str_type L)),
      err_of (required ''action_en'' d (str_type L)),
      err_of (required ''action_nl'' d (str_type L)),
      err_of (required ''instructions_en'' d (str_type L)),
      err_of (required ''instructions_nl'' d (str_type L)),
      err_of (required ''workplace'' d workplace_field),
      err_of (required ''has_timer'' d (bool_type L)),
      err_of (with_default ''timer_minutes'' d None (optional (float_type L))),
      err_of (required ''is_first_appearance'' d (bool_type L))]"
    from u(5) have "literal workplaces u = invalid"
      by (cases u) (auto simp: literal_def)
    with through[OF u(2,3,4)] u(1)
    have w: "required ''workplace'' d workplace_field =
        Inl (ValidationError [([Key ''workplace''], Invalid)])"
      by (simp add: required_def workplace_field_def and_then_def invalid_def)
    then have mem: "Some (ValidationError [([Key ''workplace''], Invalid)]) \<in> set ?rs"
      by (simp add: err_of_def)
    have kinds: "\<forall>x. Some x \<in> set ?rs \<longrightarrow> (\<exists>a. x = ValidationError a)"
      using w by (auto simp: err_of_def[of "Inl e" for e] dest: field_kinds)
    from collect_validation[OF kinds mem] obtain a
      where "collect ?rs = Some (ValidationError a)" "([Key ''workplace''], Invalid) \<in> set a"
      by auto
    then show ?thesis
      unfolding RecipeStep_validate_def Let_def by simp
  qed
  have fp: "fix_workplace (JStr ''Fireplace'') = Inr (JStr ''Fireplace'')"
    by (simp add: fix_workplace_def dict_get_def workplace_mapping_def)
  have fp_fails: "\<exists>es. RecipeStep_validate L (JObj d) = Inl (ValidationError es) \<and>
         ([Key ''workplace''], Invalid) \<in> set es"
    if "d ''workplace'' = Some (JStr ''Fireplace'')"
    by (rule listed[OF that]) (auto simp: workplace_mapping_def workplaces_def)
  have wok_step: "workplace step = ''Stove''"
    if "d ''workplace'' = Some (JStr ''Wok'')" "RecipeStep_validate L (JObj d) = Inr step"
    using accepted[OF that] wok by (simp add: literal_Inr_iff)
  show ?thesis
  proof (intro conjI impI, goal_cases)
    case 1
    show ?case by (rule wok)
  next
    case 2
    then show ?case using accepted[of v] by blast
  next
    case 3
    then show ?case using wok_step by blast
  next
    case 4
    then show ?case using through[of v] by blast
  next
    case 5
    then show ?case using fails[of v] by blast
  next
    case 6
    then show ?case using listed[of v] by blast
  next
    case 7
    show ?case by (rule fp)
  next
    case 8
    then show ?case by (rule fp_fails)
  qed
qed

theorem workplace_remapped_before_validation_witness:
  "RecipeStep_validate no_coercion (JObj (sample_step (JStr ''Wok''))) =
     Inr (sample_step_record ''Stove'') \<and>
   workplace (sample_step_record ''Stove'') = ''Stove'' \<and>
   (\<exists>es. RecipeStep_validate no_coercion (JObj (sample_step (JStr ''Fireplace''))) =
      Inl (ValidationError es) \<and> ([Key ''workplace''], Invalid) \<in> set es)"
proof -
  have v: "RecipeStep_validate no_coercion (JObj (sample_step (JStr ''Wok''))) =
     Inr (sample_step_record ''Stove'')"
    by (simp add: RecipeStep_validate_def sample_step_def sample_step_record_def required_def
      with_default_def str_type_def bool_type_def optional_def workplace_field_def
      fix_workplace_def dict_get_def workplace_mapping_def literal_def and_then_def
      workplaces_def)
  have k: "sample_step (JStr ''Wok'') ''workplace'' = Some (JStr ''Wok'')"
    "sample_step (JStr ''Fireplace'') ''workplace'' = Some (JStr ''Fireplace'')"
    by (simp_all add: sample_step_def)
  from workplace_remapped_before_validation[of "sample_step (JStr ''Wok'')" "JStr ''Wok''"
      no_coercion "sample_step_record ''Stove''"] v k(1)
  have "workplace (sample_step_record ''Stove'') = ''Stove''" by blast
  moreover from workplace_remapped_before_validation[of "sample_step (JStr ''Fireplace'')"
      "JStr ''Fireplace''" no_coercion] k(2)
  have "\<exists>es. RecipeStep_validate no_coercion (JObj (sample_step (JStr ''Fireplace''))) =
      Inl (ValidationError es) \<and> ([Key ''workplace''], Invalid) \<in> set es" by blast
  ultimately show ?thesis using v by blast
qed

section \<open>Field-name aliases\<close>

lemma fix_field_names_unfold:
  "fix_field_names v =
     rename (''fat_g_per_serving'', ''fat_g'')
       (rename (''carbs_g_per_serving'', ''carbs_g'')
         (rename (''protein_g_per_serving'', ''protein_g'')
           (rename (''calories_per_serving'', ''calories_per_person'') v)))"
  by (simp add: fix_field_names_def renames_def)

lemma rename_other:
  "k \<noteq> old \<Longrightarrow> k \<noteq> new \<Longrightarrow> rename (old, new) v k = v k"
  by (simp add: rename_def)

lemma rename_new:
  "old \<noteq> new \<Longrightarrow> rename (old, new) v new = (if v new = None then v old else v new)"
  by (simp add: rename_def)

lemma rename_old:
  "old \<noteq> new \<Longrightarrow> rename (old, new) v old = (if v new = None then None else v old)"
  by (simp add: rename_def)


text \<open>The four pairs do not interfere: each key of the result depends on one pair.\<close>

lemma fix_field_names_new:
  "fix_field_names v ''calories_per_person'' =
     (if v ''calories_per_person'' = None then v ''calories_per_serving''
      else v ''calories_per_person'')"
  "fix_field_names v ''protein_g'' =
     (if v ''protein_g'' = None then v ''protein_g_per_serving'' else v ''protein_g'')"
  "fix_field_names v ''carbs_g'' =
     (if v ''carbs_g'' = None then v ''carbs_g_per_serving'' else v ''carbs_g'')"
  "fix_field_names v ''fat_g'' =
     (if v ''fat_g'' = None then v ''fat_g_per_serving'' else v ''fat_g'')"
  by (simp_all add: fix_field_names_unfold rename_other rename_new rename_old)

lemma fix_field_names_old:
  "fix_field_names v ''calories_per_serving'' =
     (if v ''calories_per_person'' = None then None else v ''calories_per_serving'')"
  "fix_field_names v ''protein_g_per_serving'' =
     (if v ''protein_g'' = None then None else v ''protein_g_per_serving'')"
  "fix_field_names v ''carbs_g_per_serving'' =
     (if v ''carbs_g'' = None then None else v ''carbs_g_per_serving'')"
  "fix_field_names v ''fat_g_per_serving'' =
     (if v ''fat_g'' = None then None else v ''fat_g_per_serving'')"
  by (simp_all add: fix_field_names_unfold rename_other rename_new rename_old)

lemma fix_field_names_other:
  assumes "k \<notin> fst ` set renames" and "k \<notin> snd ` set renames"
  shows "fix_field_names v k = v k"
proof -
  from assms have "k \<noteq> ''calories_per_serving''" "k \<noteq> ''calories_per_person''"
    "k \<noteq> ''protein_g_per_serving''" "k \<noteq> ''protein_g''"
    "k \<noteq> ''carbs_g_per_serving''" "k \<noteq> ''carbs_g''"
    "k \<noteq> ''fat_g_per_serving''" "k \<noteq> ''fat_g''"
    unfolding renames_def by auto
  then show ?thesis
    unfolding fix_field_names_unfold by (simp add: rename_other)
qed

text \<open>
  Claim C5. For every raw mapping and every pair of the alias table, the alias pass
  moves the alias key's value to the canonical key exactly when the alias key is present
  and the canonical key is absent (the alias key is gone afterwards); when both are
  present the canonical key keeps its value (and the alias key stays, to be ignored as
  an unknown key); keys outside the table are not touched. So the validated record
  takes \<open>calories_per_person\<close> from \<open>calories_per_serving\<close> only when
  \<open>calories_per_person\<close> is absent.
\<close>

theorem alias_renamed_only_when_canonical_absent:
  "(\<forall>(old, new) \<in> set renames.
      (v old \<noteq> None \<and> v new = None \<longrightarrow>
         fix_field_names v new = v old \<and> fix_field_names v old = None) \<and>
      (v new \<noteq> None \<longrightarrow>
         fix_field_names v new = v new \<and> fix_field_names v old = v old) \<and>
      (v old = None \<longrightarrow>
         fix_field_names v new = v new \<and> fix_field_names v old = None)) \<and>
   (k \<notin> fst ` set renames \<and> k \<notin> snd ` set renames \<longrightarrow> fix_field_names v k = v k) \<and>
   (SousChefRecipe_validate L v = Inr recipe \<and> v ''calories_per_person'' = None \<and>
    v ''calories_per_serving'' = Some (JInt n) \<longrightarrow> calories_per_person recipe = Some n) \<and>
   (SousChefRecipe_validate L v = Inr recipe \<and> v ''calories_per_person'' = Some (JInt m) \<and>
    v ''calories_per_serving'' = Some (JInt n) \<longrightarrow> calories_per_person recipe = Some m)"
proof (intro conjI impI, goal_cases)
  case 1
  show ?case
    unfolding renames_def by (simp add: fix_field_names_new fix_field_names_old)
next
  case 2
  then show ?case by (simp add: fix_field_names_other)
next
  case 3
  then obtain r0 where f: "SousChefRecipe_fields L (fix_field_names v) = Inr r0"
    and r: "recipe = fix_difficulty_by_steps r0"
    by (auto simp: validate_Inr_iff)
  from 3 have "fix_field_names v ''calories_per_person'' = Some (JInt n)"
    by (simp add: fix_field_names_new)
  with fields_ok(11)[OF f] have "calories_per_person r0 = Some n"
    by (simp add: with_default_def optional_def int_type_def and_then_def)
  with r show ?case by (simp add: fix_difficulty_by_steps_def Let_def)
next
  case 4
  then obtain r0 where f: "SousChefRecipe_fields L (fix_field_names v) = Inr r0"
    and r: "recipe = fix_difficulty_by_steps r0"
    by (auto simp: validate_Inr_iff)
  from 4 have "fix_field_names v ''calories_per_person'' = Some (JInt m)"
    by (simp add: fix_field_names_new)
  with fields_ok(11)[OF f] have "calories_per_person r0 = Some m"
    by (simp add: with_default_def optional_def int_type_def and_then_def)
  with r show ?case by (simp add: fix_difficulty_by_steps_def Let_def)
qed

lemma sample_alias_ok:
  "SousChefRecipe_validate L
     ((sample_raw (JStr ''Easy'') n cal g [])
        (''calories_per_person'' := None, ''calories_per_serving'' \<mapsto> JInt c))
     = Inr (sample_recipe ''Easy'' n c g [])"
proof -
  have "fix_field_names
      ((sample_raw (JStr ''Easy'') n cal g [])
        (''calories_per_person'' := None, ''calories_per_serving'' \<mapsto> JInt c))
      = (sample_raw (JStr ''Easy'') n cal g [])
        (''calories_per_serving'' := None, ''calories_per_person'' \<mapsto> JInt c)"
    by (rule ext) (simp add: fix_field_names_unfold rename_def sample_raw_def)
  then show ?thesis
    by (simp add: SousChefRecipe_validate_def and_then_def fix_difficulty_by_steps_def
        SousChefRecipe_fields_def sample_raw_def sample_recipe_def required_def
        with_default_def str_type_def int_type_def float_type_def optional_def
        difficulty_field_def fix_difficulty_def dict_get_def difficulty_mapping_def
        literal_def difficulties_def list_type_def Ingredient_validate_def)
qed

lemma sample_both_ok:
  "SousChefRecipe_validate L
     ((sample_raw (JStr ''Easy'') n cal g []) (''calories_per_serving'' \<mapsto> JInt c))
     = Inr (sample_recipe ''Easy'' n cal g [])"
proof -
  have "fix_field_names
      ((sample_raw (JStr ''Easy'') n cal g []) (''calories_per_serving'' \<mapsto> JInt c))
      = (sample_raw (JStr ''Easy'') n cal g []) (''calories_per_serving'' \<mapsto> JInt c)"
    by (rule ext) (simp add: fix_field_names_unfold rename_def sample_raw_def)
  then show ?thesis
    by (simp add: SousChefRecipe_validate_def and_then_def fix_difficulty_by_steps_def
        SousChefRecipe_fields_def sample_raw_def sample_recipe_def required_def
        with_default_def str_type_def int_type_def float_type_def optional_def
        difficulty_field_def fix_difficulty_def dict_get_def difficulty_mapping_def
        literal_def difficulties_def list_type_def Ingredient_validate_def)
qed

text \<open>A record with the alias only takes its value; a record with both keeps the
  canonical value.\<close>

theorem alias_renamed_only_when_canonical_absent_witness:
  "fix_field_names
     ((sample_raw (JStr ''Easy'') 4 550 35 [])
        (''calories_per_person'' := None, ''calories_per_serving'' \<mapsto> JInt 600))
     ''calories_per_person'' = Some (JInt 600) \<and>
   fix_field_names
     ((sample_raw (JStr ''Easy'') 4 550 35 [])
        (''calories_per_person'' := None, ''calories_per_serving'' \<mapsto> JInt 600))
     ''calories_per_serving'' = None \<and>
   fix_field_names
     ((sample_raw (JStr ''Easy'') 4 550 35 []) (''calories_per_serving'' \<mapsto> JInt 600))
     ''calories_per_person'' = Some (JInt 550) \<and>
   fix_field_names
     ((sample_raw (JStr ''Easy'') 4 550 35 []) (''calories_per_serving'' \<mapsto> JInt 600))
     ''servings'' = Some (JInt 4) \<and>
   calories_per_person (sample_recipe ''Easy'' 4 600 35 []) = Some 600 \<and>
   calories_per_person (sample_recipe ''Easy'' 4 550 35 []) = Some 550"
proof -
  let ?a = "(sample_raw (JStr ''Easy'') 4 550 35 [])
        (''calories_per_person'' := None, ''calories_per_serving'' \<mapsto> JInt 600)"
  let ?b = "(sample_raw (JStr ''Easy'') 4 550 35 []) (''calories_per_serving'' \<mapsto> JInt 600)"
  have p: "(''calories_per_serving'', ''calories_per_person'') \<in> set renames"
    by (simp add: renames_def)
  note ta = alias_renamed_only_when_canonical_absent[of ?a "''servings''" no_coercion
      "sample_recipe ''Easy'' 4 600 35 []" 600 550]
  note tb = alias_renamed_only_when_canonical_absent[of ?b "''servings''" no_coercion
      "sample_recipe ''Easy'' 4 550 35 []" 600 550]
  note pa = ta[THEN conjunct1, THEN bspec, OF p]
  note pb = tb[THEN conjunct1, THEN bspec, OF p]
  from pa have 1: "fix_field_names ?a ''calories_per_person'' = Some (JInt 600)"
    and 2: "fix_field_names ?a ''calories_per_serving'' = None"
    by simp_all
  from pb have 3: "fix_field_names ?b ''calories_per_person'' = Some (JInt 550)"
    by (simp add: sample_raw_def)
  have 4: "fix_field_names ?b ''servings'' = Some (JInt 4)"
    using tb[THEN conjunct2, THEN conjunct1] by (simp add: renames_def sample_raw_def)
  have 5: "calories_per_person (sample_recipe ''Easy'' 4 600 35 []) = Some 600"
  proof (rule ta[THEN conjunct2, THEN conjunct2, THEN conjunct1, THEN mp], intro conjI)
    show "SousChefRecipe_validate no_coercion ?a = Inr (sample_recipe ''Easy'' 4 600 35 [])"
      by (rule sample_alias_ok)
  qed simp_all
  have 6: "calories_per_person (sample_recipe ''Easy'' 4 550 35 []) = Some 550"
  proof (rule tb[THEN conjunct2, THEN conjunct2, THEN conjunct2, THEN mp], intro conjI)
    show "SousChefRecipe_validate no_coercion ?b = Inr (sample_recipe ''Easy'' 4 550 35 [])"
      by (rule sample_both_ok)
  qed (simp_all add: sample_raw_def)
  from 1 2 3 4 5 6 show ?thesis by (intro conjI)
qed

section \<open>Timer fields\<close>

text \<open>
  Claim C10. Validation relates \<open>has_timer\<close> and \<open>timer_minutes\<close> in no way. Take any raw
  step that is accepted. With \<open>has_timer\<close> set to true and \<open>timer_minutes\<close> removed (or
  null) it is accepted, with no timer value; with \<open>has_timer\<close> set to false and
  \<open>timer_minutes\<close> set to a float, or to an integer that is a double as it stands, it
  is accepted, with that value. The other fields are as before.
\<close>

theorem timer_fields_independent:
  "RecipeStep_validate L (JObj d) = Inr step \<longrightarrow>
     RecipeStep_validate L (JObj (d(''has_timer'' \<mapsto> JBool True, ''timer_minutes'' := None)))
       = Inr (step\<lparr>has_timer := True, timer_minutes := None\<rparr>) \<and>
     RecipeStep_validate L (JObj (d(''has_timer'' \<mapsto> JBool True, ''timer_minutes'' \<mapsto> JNull)))
       = Inr (step\<lparr>has_timer := True, timer_minutes := None\<rparr>) \<and>
     RecipeStep_validate L (JObj (d(''has_timer'' \<mapsto> JBool False, ''timer_minutes'' \<mapsto> JFloat x)))
       = Inr (step\<lparr>has_timer := False, timer_minutes := Some x\<rparr>) \<and>
     (\<bar>n\<bar> \<le> 2 ^ 53 \<longrightarrow>
        RecipeStep_validate L (JObj (d(''has_timer'' \<mapsto> JBool False, ''timer_minutes'' \<mapsto> JInt n)))
          = Inr (step\<lparr>has_timer := False, timer_minutes := Some (of_int n)\<rparr>))"
proof
  assume v: "RecipeStep_validate L (JObj d) = Inr step"
  note f = step_fields_ok[OF v]
  have t: "required ''has_timer'' (d(''has_timer'' \<mapsto> JBool b, ''timer_minutes'' := y))
      (bool_type L) = Inr b" for b y
    by (simp add: required_def bool_type_def)
  have m: "with_default ''timer_minutes'' (d(''has_timer'' \<mapsto> JBool b, ''timer_minutes'' := None))
      None (optional (float_type L)) = Inr None"
    "with_default ''timer_minutes'' (d(''has_timer'' \<mapsto> JBool b, ''timer_minutes'' \<mapsto> JNull))
      None (optional (float_type L)) = Inr None"
    "with_default ''timer_minutes'' (d(''has_timer'' \<mapsto> JBool b, ''timer_minutes'' \<mapsto> JFloat x))
      None (optional (float_type L)) = Inr (Some x)"
    "\<bar>n\<bar> \<le> 2 ^ 53 \<Longrightarrow>
     with_default ''timer_minutes'' (d(''has_timer'' \<mapsto> JBool b, ''timer_minutes'' \<mapsto> JInt n))
      None (optional (float_type L)) = Inr (Some (of_int n))" for b
    by (simp_all add: with_default_def optional_def float_type_def and_then_def)
  have s: "step\<lparr>has_timer := b, timer_minutes := y\<rparr> =
      \<lparr>display_name_en = display_name_en step, display_name_nl = display_name_nl step,
       action_en = action_en step, action_nl = action_nl step,
       instructions_en = instructions_en step, instructions_nl = instructions_nl step,
       workplace = workplace step, has_timer = b, timer_minutes = y,
       is_first_appearance = is_first_appearance step\<rparr>" for b y
    using f(11) by (cases step) simp
  have g: "RecipeStep_validate L (JObj (d(''has_timer'' \<mapsto> JBool b, ''timer_minutes'' := y)))
      = Inr (step\<lparr>has_timer := b, timer_minutes := z\<rparr>)"
    if "with_default ''timer_minutes'' (d(''has_timer'' \<mapsto> JBool b, ''timer_minutes'' := y))
      None (optional (float_type L)) = Inr z" for b y z
    unfolding s
    by (rule step_fieldsI) (simp_all add: f(1-7,10) t that del: fun_upd_apply)
  from g[OF m(1)] g[OF m(2)] g[OF m(3)] g[OF m(4)]
  show "RecipeStep_validate L (JObj (d(''has_timer'' \<mapsto> JBool True, ''timer_minutes'' := None)))
       = Inr (step\<lparr>has_timer := True, timer_minutes := None\<rparr>) \<and>
     RecipeStep_validate L (JObj (d(''has_timer'' \<mapsto> JBool True, ''timer_minutes'' \<mapsto> JNull)))
       = Inr (step\<lparr>has_timer := True, timer_minutes := None\<rparr>) \<and>
     RecipeStep_validate L (JObj (d(''has_timer'' \<mapsto> JBool False, ''timer_minutes'' \<mapsto> JFloat x)))
       = Inr (step\<lparr>has_timer := False, timer_minutes := Some x\<rparr>) \<and>
     (\<bar>n\<bar> \<le> 2 ^ 53 \<longrightarrow>
        RecipeStep_validate L (JObj (d(''has_timer'' \<mapsto> JBool False, ''timer_minutes'' \<mapsto> JInt n)))
          = Inr (step\<lparr>has_timer := False, timer_minutes := Some (of_int n)\<rparr>))"
    by blast
qed

text \<open>The sample step, with a timer flag and no minutes, and with minutes and no flag.\<close>

theorem timer_fields_independent_witness:
  "RecipeStep_validate no_coercion
     (JObj ((sample_step (JStr ''Pan''))(''has_timer'' \<mapsto> JBool True, ''timer_minutes'' := None)))
     = Inr ((sample_step_record ''Pan'')\<lparr>has_timer := True, timer_minutes := None\<rparr>) \<and>
   RecipeStep_validate no_coercion
     (JObj ((sample_step (JStr ''Pan''))(''has_timer'' \<mapsto> JBool False, ''timer_minutes'' \<mapsto> JFloat 5)))
     = Inr ((sample_step_record ''Pan'')\<lparr>has_timer := False, timer_minutes := Some 5\<rparr>) \<and>
   RecipeStep_validate no_coercion
     (JObj ((sample_step (JStr ''Pan''))(''has_timer'' \<mapsto> JBool False, ''timer_minutes'' \<mapsto> JInt 3)))
     = Inr ((sample_step_record ''Pan'')\<lparr>has_timer := False, timer_minutes := Some 3\<rparr>)"
proof -
  note t = timer_fields_independent[of no_coercion "sample_step (JStr ''Pan'')"
      "sample_step_record ''Pan''" 5 3, THEN mp, OF sample_step_ok]
  have b: "\<bar>3 :: int\<bar> \<le> 2 ^ 53" by simp
  note t1 = t[THEN conjunct1]
  note t3 = t[THEN conjunct2, THEN conjunct2, THEN conjunct1]
  note t4 = t[THEN conjunct2, THEN conjunct2, THEN conjunct2, THEN mp, OF b]
  from t4 have t4': "RecipeStep_validate no_coercion
     (JObj ((sample_step (JStr ''Pan''))(''has_timer'' \<mapsto> JBool False, ''timer_minutes'' \<mapsto> JInt 3)))
     = Inr ((sample_step_record ''Pan'')\<lparr>has_timer := False, timer_minutes := Some 3\<rparr>)"
    by simp
  from t1 t3 t4' show ?thesis by (intro conjI)
qed

section \<open>Numeric fields\<close>

lemma required_cong_key:
  "d k = d' k \<Longrightarrow> required k d f = required k d' f"
  by (simp add: required_def)

lemma optional_simps [simp]:
  "optional f JNull = Inr None"
  "optional (int_type L) (JInt n) = Inr (Some n)"
  "optional (float_type L) (JFloat x) = Inr (Some x)"
  "optional (str_type L) (JStr s) = Inr (Some s)"
  by (simp_all add: optional_def int_type_def float_type_def str_type_def and_then_def)

lemma missing_required_fails:
  assumes "fix_field_names v k = None"
    and "k \<in> {''generic_name_en'', ''generic_name_nl'', ''recipe_name_en'', ''recipe_name_nl'',
      ''description_en'', ''description_nl'', ''difficulty'', ''servings'',
      ''prep_time_minutes'', ''cook_time_minutes'', ''ingredients'', ''steps''}"
  shows "\<exists>e. SousChefRecipe_validate L v = Inl e"
proof (cases "SousChefRecipe_validate L v")
  case (Inr r)
  then obtain r0 where f: "SousChefRecipe_fields L (fix_field_names v) = Inr r0"
    by (auto simp: validate_Inr_iff)
  from fields_ok(1-10,15,16)[OF f] assms show ?thesis
    by (auto simp: required_Inr_iff)
qed simp



lemma sample_plain_ok:
  "SousChefRecipe_validate L (sample_raw (JStr ''Hard'') n cal g []) =
     Inr (sample_recipe ''Easy'' n cal g [])"
  using sample_validate_ok[of L n cal g 0]
  by (simp add: fix_difficulty_by_steps_def sample_recipe_def)






section \<open>Round trip\<close>

lemma items_dump:
  assumes "\<And>x. x \<in> set xs \<Longrightarrow> f (g x) = Inr x"
  shows "items f i (map g xs) = Inr xs"
  using assms by (induction xs arbitrary: i) simp_all

lemma Ingredient_roundtrip: "Ingredient_validate L (Ingredient_dump i) = Inr i"
  by (cases "quantity i")
    (simp_all add: Ingredient_validate_def Ingredient_dump_def Let_def required_def
      with_default_def str_type_def dump_opt_def)

lemma dict_get_enum:
  "s \<notin> fst ` set m \<Longrightarrow> dict_get m (JStr s) = Inr (JStr s)"
  by (simp add: dict_get_def map_of_eq_None_iff[THEN iffD2])

lemma workplaces_not_keys: "set workplaces \<inter> fst ` set workplace_mapping = {}"
  by (simp add: workplaces_def workplace_mapping_def)

lemma difficulties_not_keys: "set difficulties \<inter> fst ` set difficulty_mapping = {}"
  by (simp add: difficulties_def difficulty_mapping_def)

lemma workplace_field_enum:
  assumes "w \<in> set workplaces"
  shows "workplace_field (JStr w) = Inr w"
proof -
  from assms workplaces_not_keys have "w \<notin> fst ` set workplace_mapping" by blast
  then have "fix_workplace (JStr w) = Inr (JStr w)"
    unfolding fix_workplace_def by (rule dict_get_enum)
  with assms show ?thesis
    by (simp add: workplace_field_def and_then_def literal_def)
qed

lemma difficulty_field_enum:
  assumes "w \<in> set difficulties"
  shows "difficulty_field (JStr w) = Inr w"
proof -
  from assms difficulties_not_keys have "w \<notin> fst ` set difficulty_mapping" by blast
  then have "fix_difficulty (JStr w) = Inr (JStr w)"
    unfolding fix_difficulty_def by (rule dict_get_enum)
  with assms show ?thesis
    by (simp add: difficulty_field_def and_then_def literal_def)
qed

lemma RecipeStep_roundtrip:
  assumes "workplace s \<in> set workplaces"
  shows "RecipeStep_validate L (RecipeStep_dump s) = Inr s"
proof -
  have "RecipeStep_validate L (RecipeStep_dump s) =
     Inr \<lparr>display_name_en = display_name_en s, display_name_nl = display_name_nl s,
          action_en = action_en s, action_nl = action_nl s,
          instructions_en = instructions_en s, instructions_nl = instructions_nl s,
          workplace = workplace s, has_timer = has_timer s,
          timer_minutes = timer_minutes s, is_first_appearance = is_first_appearance s\<rparr>"
    unfolding RecipeStep_dump_def
    by (rule step_fieldsI)
      (cases "timer_minutes s";
        simp add: required_def with_default_def str_type_def bool_type_def dump_opt_def
          workplace_field_enum[OF assms])+
  then show ?thesis by simp
qed

lemma optional_dump:
  "optional (int_type L) (dump_opt JInt n) = Inr n"
  "optional (float_type L) (dump_opt JFloat x) = Inr x"
  by (cases n; simp add: dump_opt_def) (cases x; simp add: dump_opt_def)

lemma step_validated_workplace:
  assumes "RecipeStep_validate L x = Inr s"
  shows "workplace s \<in> set workplaces"
proof (cases x)
  case (JObj d)
  with assms have "required ''workplace'' d workplace_field = Inr (workplace s)"
    by (simp add: step_fields_ok(7))
  then show ?thesis
    by (auto simp: required_Inr_iff dest: workplace_field_Inr)
qed (use assms in \<open>simp_all add: RecipeStep_validate_def invalid_def\<close>)

lemma items_Inr_all:
  assumes "items f i xs = Inr ys" and "y \<in> set ys"
  shows "\<exists>x. f x = Inr y"
  using assms
proof (induction xs arbitrary: i ys)
  case Nil
  then show ?case by simp
next
  case (Cons x xs)
  from Cons.prems(1) obtain z zs where z: "f x = Inr z" and zs: "items f (Suc i) xs = Inr zs"
    and ys: "ys = z # zs"
    by (auto split: sum.splits)
  with Cons.prems(2) Cons.IH[OF zs] show ?case by auto
qed

lemma list_type_Inr_iff:
  "list_type f v = Inr ys \<longleftrightarrow> (\<exists>xs. v = JArr xs \<and> items f 0 xs = Inr ys)"
  by (cases v) (auto simp: list_type_def invalid_def)

lemma rename_absent: "v old = None \<Longrightarrow> rename (old, new) v = v"
  by (simp add: rename_def)

lemma fix_field_names_model_dump: "fix_field_names (model_dump r) = model_dump r"
  by (simp add: fix_field_names_unfold rename_absent model_dump_def)

lemma fix_difficulty_by_steps_idem:
  "fix_difficulty_by_steps (fix_difficulty_by_steps r) = fix_difficulty_by_steps r"
  by (simp add: fix_difficulty_by_steps_def Let_def)

lemma validated_roundtrip:
  assumes "SousChefRecipe_validate L v = Inr r"
  shows "SousChefRecipe_validate L (model_dump r) = Inr r"
proof -
  from assms obtain r0 where f0: "SousChefRecipe_fields L (fix_field_names v) = Inr r0"
    and r: "r = fix_difficulty_by_steps r0"
    by (auto simp: validate_Inr_iff)
  from fields_ok(16)[OF f0] obtain xs where "items (RecipeStep_validate L) 0 xs = Inr (steps r0)"
    by (auto simp: required_Inr_iff list_type_Inr_iff)
  then have w: "workplace s \<in> set workplaces" if "s \<in> set (steps r)" for s
    using items_Inr_all[of "RecipeStep_validate L" 0 xs "steps r0" s] that r
    by (auto dest: step_validated_workplace)
  have d: "difficulty r \<in> set difficulties"
    by (simp add: r difficulty_fix_difficulty_by_steps difficulties_def)
  have more: "SousChefRecipe.more r = ()" by simp
  have "SousChefRecipe_fields L (model_dump r) =
     Inr \<lparr>generic_name_en = generic_name_en r, generic_name_nl = generic_name_nl r,
          recipe_name_en = recipe_name_en r, recipe_name_nl = recipe_name_nl r,
          description_en = description_en r, description_nl = description_nl r,
          difficulty = difficulty r, servings = servings r,
          prep_time_minutes = prep_time_minutes r, cook_time_minutes = cook_time_minutes r,
          calories_per_person = calories_per_person r, protein_g = protein_g r,
          carbs_g = carbs_g r, fat_g = fat_g r, ingredients = ingredients r,
          steps = steps r\<rparr>"
    by (rule fieldsI)
      (simp_all add: required_def with_default_def model_dump_def str_type_def int_type_def
        optional_dump difficulty_field_enum[OF d] list_type_def items_dump
        Ingredient_roundtrip RecipeStep_roundtrip w)
  then have "SousChefRecipe_fields L (model_dump r) = Inr r"
    by simp
  then show ?thesis
    by (simp add: SousChefRecipe_validate_def fix_field_names_model_dump and_then_def r
        fix_difficulty_by_steps_idem)
qed

text \<open>
  Claim C7. A finalized recipe is a record that the schema validator produced. Dumping
  such a record (\<^verbatim>\<open>model_dump\<close>, which \<^verbatim>\<open>json.dumps\<close> writes out) and validating the
  dump again gives the same record: the dump has no alias key, the workplaces and the
  difficulty are in their enums and are no synonyms, and the difficulty recomputed from
  the same steps is the same.
\<close>

theorem json_roundtrip_identity:
  "(SousChefRecipe_validate L v = Inr recipe \<longrightarrow>
      SousChefRecipe_validate L (model_dump recipe) = Inr recipe) \<and>
   (agent_invoke L M input = (trace, Inr result) \<longrightarrow>
      (\<exists>final. final_recipe result = Some final \<and>
         SousChefRecipe_validate L (model_dump final) = Inr final))"
proof (intro conjI impI)
  assume "SousChefRecipe_validate L v = Inr recipe"
  then show "SousChefRecipe_validate L (model_dump recipe) = Inr recipe"
    by (rule validated_roundtrip)
next
  assume "agent_invoke L M input = (trace, Inr result)"
  then obtain final d where "final_recipe result = Some final"
    "SousChefRecipe_validate L d = Inr final"
    using agent_invoke_final by blast
  then show "\<exists>final. final_recipe result = Some final \<and>
         SousChefRecipe_validate L (model_dump final) = Inr final"
    by (blast intro: validated_roundtrip)
qed

text \<open>The sample record with two steps.\<close>

theorem json_roundtrip_identity_witness:
  "SousChefRecipe_validate no_coercion
     (model_dump (sample_recipe ''Easy'' 4 550 35 (replicate 2 (sample_step_record ''Pan''))))
     = Inr (sample_recipe ''Easy'' 4 550 35 (replicate 2 (sample_step_record ''Pan'')))"
proof -
  have "SousChefRecipe_validate no_coercion
     (sample_raw (JStr ''Hard'') 4 550 35 (replicate 2 (JObj (sample_step (JStr ''Pan'')))))
     = Inr (sample_recipe ''Easy'' 4 550 35 (replicate 2 (sample_step_record ''Pan'')))"
    by (simp add: sample_validate_ok fix_difficulty_by_steps_def sample_recipe_def)
  then show ?thesis
    by (rule json_roundtrip_identity[THEN conjunct1, THEN mp])
qed

section \<open>Routing\<close>

lemma contains_iff: "contains sub s \<longleftrightarrow> (\<exists>pre post. s = pre @ sub @ post)"
proof (induction s)
  case Nil
  show ?case by auto
next
  case (Cons c cs)
  show ?case
  proof
    assume "contains sub (c # cs)"
    then consider "prefix sub (c # cs)" | "contains sub cs" by auto
    then show "\<exists>pre post. c # cs = pre @ sub @ post"
    proof cases
      case 1
      then obtain post where "c # cs = sub @ post" by (auto simp: prefix_def)
      then have "c # cs = [] @ sub @ post" by simp
      then show ?thesis by blast
    next
      case 2
      with Cons.IH obtain pre post where "cs = pre @ sub @ post" by blast
      then have "c # cs = (c # pre) @ sub @ post" by simp
      then show ?thesis by blast
    qed
  next
    assume "\<exists>pre post. c # cs = pre @ sub @ post"
    then obtain pre post where e: "c # cs = pre @ sub @ post" by blast
    show "contains sub (c # cs)"
    proof (cases pre)
      case Nil
      with e have "prefix sub (c # cs)" by (simp add: prefix_def)
      then show ?thesis by simp
    next
      case (Cons p ps)
      with e have "cs = ps @ sub @ post" by simp
      with Cons.IH have "contains sub cs" by blast
      then show ?thesis by simp
    qed
  qed
qed

lemma approved_example: "contains ''APPROVED'' ''Everything looks great. APPROVED''"
  by (simp add: prefix_def)

lemma transform_node_attempts:
  "transform_node L M n state = Inr s0 \<Longrightarrow> attempts s0 = Some 0 \<and> critique s0 = critique state"
  by (auto dest!: transform_node_Inr)

text \<open>A round that ends the loop: the critique is approved or two repairs were made.\<close>

lemma critique_loop_finalize:
  assumes "critique_node M n state = Inr s1"
    and "contains ''APPROVED'' (get_or (critique s1) []) \<or> 2 \<le> get_or (attempts s1) 0"
  shows "critique_loop L M n state = ([Critique, Finalize], finalize_node s1)"
  using assms by (subst critique_loop.simps) (simp add: edge_cases)

text \<open>A round that repairs.\<close>

lemma critique_loop_repair:
  assumes "critique_node M n state = Inr s1"
    and "\<not> contains ''APPROVED'' (get_or (critique s1) [])" and "get_or (attempts s1) 0 < 2"
  shows "critique_loop L M n state =
     (case repair_node L M (Suc n) s1 of
        Inl e \<Rightarrow> ([Critique, Repair], Inl e)
      | Inr s2 \<Rightarrow>
          (case critique_loop L M (Suc (Suc n)) s2 of
             (trace, result) \<Rightarrow> (Critique # Repair # trace, result)))"
  using assms by (subst critique_loop.simps) (simp add: edge_cases)

text \<open>
  Claim C3. The route taken after \<^verbatim>\<open>critique\<close> is a function of the state alone: to
  \<^verbatim>\<open>finalize\<close> when \<open>APPROVED\<close> occurs anywhere in the critique text (an absent
  critique counts as empty), otherwise to \<^verbatim>\<open>finalize\<close> when the attempt counter (0
  when absent) is at least 2, otherwise to \<^verbatim>\<open>repair\<close>; the conditional edge leads to
  the node of that name. When the first critique is
  \<open>Everything looks great. APPROVED\<close>, the run is transform, critique, finalize: no
  repair, the counter still 0, and the transformed recipe is the final one.
\<close>

theorem routing_decision:
  "should_repair_or_finalize state =
     (if (\<exists>pre post. get_or (critique state) [] = pre @ ''APPROVED'' @ post) then ''finalize''
      else if 2 \<le> get_or (attempts state) 0 then ''finalize''
      else ''repair'') \<and>
   map_of conditional_edges (should_repair_or_finalize state) =
     Some (if (\<exists>pre post. get_or (critique state) [] = pre @ ''APPROVED'' @ post) then Finalize
           else if 2 \<le> get_or (attempts state) 0 then Finalize
           else Repair) \<and>
   should_repair_or_finalize (state\<lparr>critique := Some ''Everything looks great. APPROVED''\<rparr>)
     = ''finalize'' \<and>
   (transform_node L M 0 input = Inr s0 \<and>
    (\<forall>p. text_output M 1 p = Inr ''Everything looks great. APPROVED'') \<longrightarrow>
      agent_invoke L M input =
        ([Transform, Critique, Finalize],
         Inr (s0\<lparr>critique := Some ''Everything looks great. APPROVED'',
                  final_recipe := parsed_recipe s0\<rparr>)) \<and>
      attempts s0 = Some 0 \<and> parsed_recipe s0 \<noteq> None \<and>
      count_list (fst (agent_invoke L M input)) Repair = 0)"
proof (intro conjI impI)
  show "should_repair_or_finalize state =
     (if (\<exists>pre post. get_or (critique state) [] = pre @ ''APPROVED'' @ post) then ''finalize''
      else if 2 \<le> get_or (attempts state) 0 then ''finalize''
      else ''repair'')"
    by (simp add: should_repair_or_finalize_def Let_def contains_iff)
  show "map_of conditional_edges (should_repair_or_finalize state) =
     Some (if (\<exists>pre post. get_or (critique state) [] = pre @ ''APPROVED'' @ post) then Finalize
           else if 2 \<le> get_or (attempts state) 0 then Finalize
           else Repair)"
    by (simp add: edge_cases contains_iff)
  show "should_repair_or_finalize (state\<lparr>critique := Some ''Everything looks great. APPROVED''\<rparr>)
     = ''finalize''"
    using approved_example by (simp add: should_repair_or_finalize_def Let_def get_or_def)
next
  assume a: "transform_node L M 0 input = Inr s0 \<and>
    (\<forall>p. text_output M 1 p = Inr ''Everything looks great. APPROVED'')"
  then obtain r where p: "parsed_recipe s0 = Some r" and at: "attempts s0 = Some 0"
    by (auto dest!: transform_node_Inr)
  let ?s1 = "s0\<lparr>critique := Some ''Everything looks great. APPROVED''\<rparr>"
  from a p have c: "critique_node M 1 s0 = Inr ?s1"
    by (simp add: critique_node_def and_then_def)
  have "critique_loop L M 1 s0 = ([Critique, Finalize], finalize_node ?s1)"
    by (rule critique_loop_finalize[OF c]) (simp add: get_or_def approved_example)
  moreover from p have "finalize_node ?s1 = Inr (?s1\<lparr>final_recipe := parsed_recipe s0\<rparr>)"
    by (simp add: finalize_node_def)
  ultimately have run: "agent_invoke L M input =
        ([Transform, Critique, Finalize],
         Inr (s0\<lparr>critique := Some ''Everything looks great. APPROVED'',
                  final_recipe := parsed_recipe s0\<rparr>))"
    using a by (simp add: agent_invoke_def)
  from run show "agent_invoke L M input =
        ([Transform, Critique, Finalize],
         Inr (s0\<lparr>critique := Some ''Everything looks great. APPROVED'',
                  final_recipe := parsed_recipe s0\<rparr>))" .
  from at show "attempts s0 = Some 0" .
  from p show "parsed_recipe s0 \<noteq> None" by simp
  from run show "count_list (fst (agent_invoke L M input)) Repair = 0" by simp
qed

lemma sample_transform:
  "transform_node no_coercion (sample_llm answer) 0 sample_input =
     Inr \<lparr>raw_recipe = Some ''Scrambled eggs'',
          parsed_recipe = Some (sample_recipe ''Easy'' 4 550 35 []),
          critique = None, final_recipe = None, attempts = Some 0\<rparr>"
  by (simp add: transform_node_def sample_input_def sample_llm_def and_then_def sample_plain_ok)

text \<open>The sample run with an approving critique.\<close>

theorem routing_decision_witness:
  "agent_invoke no_coercion (sample_llm ''Everything looks great. APPROVED'') sample_input =
     ([Transform, Critique, Finalize],
      Inr (sample_state ''Everything looks great. APPROVED'' 0))"
proof -
  have t: "\<forall>p. text_output (sample_llm ''Everything looks great. APPROVED'') 1 p =
      Inr ''Everything looks great. APPROVED''"
    by (simp add: sample_llm_def)
  from routing_decision[of sample_input no_coercion
      "sample_llm ''Everything looks great. APPROVED''" sample_input, THEN conjunct2,
      THEN conjunct2, THEN conjunct2, THEN mp, OF conjI, OF sample_transform t, THEN conjunct1]
  show ?thesis by (simp add: sample_state_def)
qed

section \<open>Empty input\<close>

lemma agent_invoke_starts: "Transform \<in> set (fst (agent_invoke L M input))"
  by (simp add: agent_invoke_def split: sum.splits prod.splits)

lemma app_invokes:
  assumes "transform_btn" and "recipe_input \<noteq> []"
  shows "fst (app L M transform_btn recipe_input) =
     fst (agent_invoke L M
       \<lparr>raw_recipe = Some recipe_input, parsed_recipe = None, critique = None,
        final_recipe = None, attempts = None\<rparr>)"
  using assms by (simp add: app_def split: prod.splits sum.splits option.splits)

text \<open>
  Claim C8. With an empty text area, no rerun of the page enters any node of the
  workflow, whatever the language model would answer: when the button was pressed the
  page shows the warning \<open>Please paste a recipe first!\<close>, otherwise the hint. The
  transform step is entered exactly when the button was pressed on a non-empty text.
\<close>

theorem empty_input_never_transforms:
  "app L M True [] = ([], st_warning ''Please paste a recipe first!'') \<and>
   app L M False [] = ([], st_info ''Paste a recipe on the left and click Transform'') \<and>
   fst (app L M transform_btn []) = [] \<and>
   Transform \<notin> set (fst (app L M transform_btn [])) \<and>
   (Transform \<in> set (fst (app L M transform_btn recipe_input)) \<longleftrightarrow>
      transform_btn \<and> recipe_input \<noteq> [])"
proof (intro conjI)
  show "app L M True [] = ([], st_warning ''Please paste a recipe first!'')"
    by (simp add: app_def)
  show "app L M False [] = ([], st_info ''Paste a recipe on the left and click Transform'')"
    by (simp add: app_def)
  show e: "fst (app L M transform_btn []) = []"
    by (simp add: app_def)
  from e show "Transform \<notin> set (fst (app L M transform_btn []))"
    by simp
  show "Transform \<in> set (fst (app L M transform_btn recipe_input)) \<longleftrightarrow>
      transform_btn \<and> recipe_input \<noteq> []"
  proof (cases "transform_btn \<and> recipe_input \<noteq> []")
    case True
    then show ?thesis
      by (simp add: app_invokes agent_invoke_starts)
  next
    case False
    then have "fst (app L M transform_btn recipe_input) = []"
      by (auto simp: app_def)
    with False show ?thesis by simp
  qed
qed

text \<open>Pressing the button on a non-empty text enters the transform step; pressing it
  on the empty text gives the warning.\<close>

theorem empty_input_never_transforms_witness:
  "Transform \<in> set (fst (app no_coercion (sample_llm ''APPROVED'') True ''Scrambled eggs'')) \<and>
   app no_coercion (sample_llm ''APPROVED'') True [] =
     ([], st_warning ''Please paste a recipe first!'')"
  using empty_input_never_transforms[of no_coercion "sample_llm ''APPROVED''" True
      "''Scrambled eggs''"]
  by simp

section \<open>The bound on repairs\<close>

lemma critique_node_keeps:
  "critique_node M n state = Inr s1 \<Longrightarrow>
     attempts s1 = attempts state \<and> parsed_recipe s1 = parsed_recipe state \<and>
     (\<exists>r c. parsed_recipe state = Some r \<and> text_output M n (critique_prompt r) = Inr c \<and>
        critique s1 = Some c)"
  by (auto dest!: critique_node_Inr)

text \<open>From a state with \<open>a\<close> attempts, at most \<open>2 - a\<close> repairs are entered, however
  the run ends.\<close>

lemma critique_loop_bound:
  "count_list (fst (critique_loop L M n state)) Repair \<le> nat (2 - get_or (attempts state) 0)"
proof (induction L M n state rule: critique_loop.induct)
  case (1 L M n state)
  show ?case
  proof (cases "critique_node M n state")
    case (Inl e)
    then show ?thesis by (subst critique_loop.simps) simp
  next
    case (Inr s1)
    then have a: "attempts s1 = attempts state" by (simp add: critique_node_keeps)
    show ?thesis
    proof (cases "contains ''APPROVED'' (get_or (critique s1) []) \<or> 2 \<le> get_or (attempts s1) 0")
      case True
      from critique_loop_finalize[OF Inr True] show ?thesis by simp
    next
      case False
      then have na: "\<not> contains ''APPROVED'' (get_or (critique s1) [])"
        and lt: "get_or (attempts s1) 0 < 2" by auto
      note step = critique_loop_repair[OF Inr na lt, of L]
      from na lt have edge: "map_of conditional_edges (should_repair_or_finalize s1) = Some Repair"
        by (simp add: edge_cases)
      show ?thesis
      proof (cases "repair_node L M (Suc n) s1")
        case (Inl e)
        with step lt a show ?thesis by simp
      next
        case r: (Inr s2)
        then have a2: "attempts s2 = Some (get_or (attempts s1) 0 + 1)"
          by (auto dest!: repair_node_Inr)
        from "1.IH"[OF Inr edge refl r]
        have "count_list (fst (critique_loop L M (Suc (Suc n)) s2)) Repair
            \<le> nat (2 - (get_or (attempts s1) 0 + 1))"
          by (simp add: a2 get_or_def)
        with step r lt a show ?thesis
          by (simp add: split_beta)
      qed
    qed
  qed
qed

lemma agent_invoke_bound: "count_list (fst (agent_invoke L M input)) Repair \<le> 2"
proof (cases "transform_node L M 0 input")
  case (Inl e)
  then show ?thesis by (simp add: agent_invoke_def)
next
  case (Inr s0)
  then have "attempts s0 = Some 0" by (simp add: transform_node_attempts)
  with critique_loop_bound[of L M 1 s0] Inr show ?thesis
    by (simp add: agent_invoke_def split_beta get_or_def)
qed

text \<open>A round of a run that completes, when no critique approves.\<close>

lemma round_repairs:
  assumes "critique_loop L M n state = (trace, Inr result)"
    and "\<forall>n p c. text_output M n p = Inr c \<longrightarrow> \<not> contains ''APPROVED'' c"
    and "get_or (attempts state) 0 < 2"
  obtains s1 s2 trace' where "critique_node M n state = Inr s1"
    and "repair_node L M (Suc n) s1 = Inr s2"
    and "critique_loop L M (Suc (Suc n)) s2 = (trace', Inr result)"
    and "trace = Critique # Repair # trace'"
    and "attempts s2 = Some (get_or (attempts state) 0 + 1)"
  using assms(1)
proof (cases rule: critique_loop_Inr)
  case (1 s1)
  from critique_node_keeps[OF 1(1)] assms(2,3) 1(2) have False
    by (auto simp: get_or_def)
  then show ?thesis ..
next
  case (2 s1 s2 trace')
  from critique_node_keeps[OF 2(1)] 2(4) have "attempts s2 = Some (get_or (attempts state) 0 + 1)"
    by (auto dest!: repair_node_Inr)
  with 2 that show ?thesis by blast
qed

lemma round_finalizes:
  assumes "critique_loop L M n state = (trace, Inr result)"
    and "2 \<le> get_or (attempts state) 0"
  shows "trace = [Critique, Finalize] \<and> final_recipe result = parsed_recipe state \<and>
     parsed_recipe result = parsed_recipe state \<and> attempts result = attempts state"
  using assms(1)
proof (cases rule: critique_loop_Inr)
  case (1 s1)
  with critique_node_keeps[OF 1(1)] show ?thesis
    by (auto dest!: finalize_node_Inr)
next
  case (2 s1 s2 trace')
  with critique_node_keeps[OF 2(1)] assms(2) show ?thesis by simp
qed

text \<open>When every call of the language model answers, and every structured answer is
  accepted by the schema, the loop returns a final state.\<close>

lemma critique_loop_completes:
  assumes "\<forall>n p. \<exists>d r. structured_output M n p = Inr d \<and> SousChefRecipe_validate L d = Inr r"
    and "\<forall>n p. \<exists>c. text_output M n p = Inr c"
    and "parsed_recipe state \<noteq> None"
  shows "\<exists>trace result. critique_loop L M n state = (trace, Inr result)"
  using assms
proof (induction L M n state rule: critique_loop.induct)
  case (1 L M n state)
  from "1.prems"(3) obtain r where r: "parsed_recipe state = Some r" by auto
  from "1.prems"(2) obtain c where c: "text_output M n (critique_prompt r) = Inr c" by blast
  let ?s1 = "state\<lparr>critique := Some c\<rparr>"
  from r c have n1: "critique_node M n state = Inr ?s1"
    by (simp add: critique_node_def and_then_def)
  show ?case
  proof (cases "contains ''APPROVED'' (get_or (critique ?s1) []) \<or> 2 \<le> get_or (attempts ?s1) 0")
    case True
    from critique_loop_finalize[OF n1 True, of L] r show ?thesis
      by (simp add: finalize_node_def)
  next
    case False
    then have na: "\<not> contains ''APPROVED'' (get_or (critique ?s1) [])"
      and lt: "get_or (attempts ?s1) 0 < 2" by auto
    from na lt have edge: "map_of conditional_edges (should_repair_or_finalize ?s1) = Some Repair"
      by (simp add: edge_cases)
    from "1.prems"(1) obtain d fixed
      where d: "structured_output M (Suc n) (repair_prompt r c) = Inr d"
        and f: "SousChefRecipe_validate L d = Inr fixed" by blast
    let ?s2 = "?s1\<lparr>parsed_recipe := Some fixed,
        attempts := Some (get_or (attempts ?s1) 0 + 1)\<rparr>"
    from r d f have n2: "repair_node L M (Suc n) ?s1 = Inr ?s2"
      by (simp add: repair_node_def and_then_def)
    from "1.IH"[OF n1 edge refl n2 "1.prems"(1,2)]
    obtain trace result where "critique_loop L M (Suc (Suc n)) ?s2 = (trace, Inr result)"
      by auto
    with critique_loop_repair[OF n1 na lt, of L] n2 show ?thesis by simp
  qed
qed

text \<open>
  Claim C2. No run enters the repair node more than twice. A run that completes and in
  which no critique answer contains \<open>APPROVED\<close> goes through transform, critique, repair,
  critique, repair, critique, finalize: exactly two repairs and three structured
  generation calls, and what it finalizes is the candidate of the second repair (the
  answer to call number 4 of the run, counted from 0). Such a run does complete
  whenever every call of the language model answers and every structured answer is
  accepted by the schema; a call that raises ends the run with that exception, and
  nothing is finalized.
\<close>

theorem exactly_two_repairs_when_never_approved:
  "count_list (fst (agent_invoke L M input)) Repair \<le> 2 \<and>
   ((\<forall>n p c. text_output M n p = Inr c \<longrightarrow> \<not> contains ''APPROVED'' c) \<and>
    agent_invoke L M input = (trace, Inr result) \<longrightarrow>
      trace = [Transform, Critique, Repair, Critique, Repair, Critique, Finalize] \<and>
      count_list trace Repair = 2 \<and>
      length (filter (\<lambda>nd. nd = Transform \<or> nd = Repair) trace) = 3 \<and>
      attempts result = Some 2 \<and>
      (\<exists>p d last. structured_output M 4 p = Inr d \<and> SousChefRecipe_validate L d = Inr last \<and>
         parsed_recipe result = Some last \<and> final_recipe result = Some last)) \<and>
   (raw_recipe input \<noteq> None \<and>
    (\<forall>n p. \<exists>d r. structured_output M n p = Inr d \<and> SousChefRecipe_validate L d = Inr r) \<and>
    (\<forall>n p. \<exists>c. text_output M n p = Inr c) \<longrightarrow>
      (\<exists>trace result. agent_invoke L M input = (trace, Inr result)))"
proof (intro conjI impI)
  show "count_list (fst (agent_invoke L M input)) Repair \<le> 2"
    by (rule agent_invoke_bound)
next
  assume a: "(\<forall>n p c. text_output M n p = Inr c \<longrightarrow> \<not> contains ''APPROVED'' c) \<and>
    agent_invoke L M input = (trace, Inr result)"
  then have na: "\<forall>n p c. text_output M n p = Inr c \<longrightarrow> \<not> contains ''APPROVED'' c"
    and run: "agent_invoke L M input = (trace, Inr result)" by auto
  from run obtain s0 t0 where t: "transform_node L M 0 input = Inr s0"
    and l0: "critique_loop L M 1 s0 = (t0, Inr result)" and tr0: "trace = Transform # t0"
    by (auto simp: agent_invoke_def split: sum.splits prod.splits)
  from t have a0: "attempts s0 = Some 0" by (simp add: transform_node_attempts)
  from a0 have lt0: "get_or (attempts s0) 0 < 2" by (simp add: get_or_def)
  from round_repairs[OF l0 na lt0] obtain s1 s2 t2
    where r1: "repair_node L M (Suc 1) s1 = Inr s2"
      and l2: "critique_loop L M (Suc (Suc 1)) s2 = (t2, Inr result)"
      and tr1: "t0 = Critique # Repair # t2"
      and a2': "attempts s2 = Some (get_or (attempts s0) 0 + 1)"
    by blast
  from a2' a0 have a2: "attempts s2 = Some 1" by (simp add: get_or_def)
  then have lt2: "get_or (attempts s2) 0 < 2" by (simp add: get_or_def)
  from round_repairs[OF l2 na lt2] obtain s3 s4 t4
    where r2: "repair_node L M (Suc (Suc (Suc 1))) s3 = Inr s4"
      and l4: "critique_loop L M (Suc (Suc (Suc (Suc 1)))) s4 = (t4, Inr result)"
      and tr2: "t2 = Critique # Repair # t4"
      and a4': "attempts s4 = Some (get_or (attempts s2) 0 + 1)"
    by blast
  from a4' a2 have a4: "attempts s4 = Some 2" by (simp add: get_or_def)
  have four: "Suc (Suc (Suc 1)) = 4" by simp
  from a4 have "2 \<le> get_or (attempts s4) 0" by (simp add: get_or_def)
  from round_finalizes[OF l4 this]
  have fin: "t4 = [Critique, Finalize]" "final_recipe result = parsed_recipe s4"
    "parsed_recipe result = parsed_recipe s4" "attempts result = attempts s4" by auto
  from r2 obtain p d last where last: "structured_output M 4 p = Inr d"
    "SousChefRecipe_validate L d = Inr last" "parsed_recipe s4 = Some last"
    unfolding four by (auto dest!: repair_node_Inr)
  from tr0 tr1 tr2 fin(1)
  show tr: "trace = [Transform, Critique, Repair, Critique, Repair, Critique, Finalize]"
    by simp
  from tr show "count_list trace Repair = 2" by simp
  from tr show "length (filter (\<lambda>nd. nd = Transform \<or> nd = Repair) trace) = 3" by simp
  from fin(4) a4 show "attempts result = Some 2" by simp
  from last fin(2,3)
  show "\<exists>p d last. structured_output M 4 p = Inr d \<and> SousChefRecipe_validate L d = Inr last \<and>
         parsed_recipe result = Some last \<and> final_recipe result = Some last"
    by auto
next
  assume c: "raw_recipe input \<noteq> None \<and>
    (\<forall>n p. \<exists>d r. structured_output M n p = Inr d \<and> SousChefRecipe_validate L d = Inr r) \<and>
    (\<forall>n p. \<exists>c. text_output M n p = Inr c)"
  then obtain raw where raw: "raw_recipe input = Some raw" by auto
  from c obtain d r where "structured_output M 0 (transform_prompt raw) = Inr d"
    "SousChefRecipe_validate L d = Inr r" by blast
  with raw have t: "transform_node L M 0 input =
      Inr (input\<lparr>parsed_recipe := Some r, attempts := Some 0\<rparr>)"
    by (simp add: transform_node_def and_then_def)
  from c have "\<exists>trace result. critique_loop L M 1
      (input\<lparr>parsed_recipe := Some r, attempts := Some 0\<rparr>) = (trace, Inr result)"
    by (intro critique_loop_completes) auto
  with t show "\<exists>trace result. agent_invoke L M input = (trace, Inr result)"
    by (auto simp: agent_invoke_def)
qed

text \<open>The sample run with a critique that never approves.\<close>

theorem exactly_two_repairs_when_never_approved_witness:
  "\<exists>result. agent_invoke no_coercion (sample_llm ''Too vague'') sample_input =
     ([Transform, Critique, Repair, Critique, Repair, Critique, Finalize], Inr result) \<and>
     attempts result = Some 2 \<and>
     final_recipe result = Some (sample_recipe ''Easy'' 4 550 35 [])"
proof -
  have na: "\<forall>n p c. text_output (sample_llm ''Too vague'') n p = Inr c \<longrightarrow>
      \<not> contains ''APPROVED'' c"
    by (simp add: sample_llm_def prefix_def)
  have ok: "raw_recipe sample_input \<noteq> None \<and>
    (\<forall>n p. \<exists>d r. structured_output (sample_llm ''Too vague'') n p = Inr d \<and>
       SousChefRecipe_validate no_coercion d = Inr r) \<and>
    (\<forall>n p. \<exists>c. text_output (sample_llm ''Too vague'') n p = Inr c)"
    by (simp add: sample_input_def sample_llm_def sample_plain_ok)
  note t = exactly_two_repairs_when_never_approved[of no_coercion "sample_llm ''Too vague''"
      sample_input]
  from t[THEN conjunct2, THEN conjunct2, THEN mp, OF ok]
  obtain trace result
    where run: "agent_invoke no_coercion (sample_llm ''Too vague'') sample_input =
      (trace, Inr result)" by blast
  from t[of trace result, THEN conjunct2, THEN conjunct1, THEN mp, OF conjI, OF na run]
  have tr: "trace = [Transform, Critique, Repair, Critique, Repair, Critique, Finalize]"
    and at: "attempts result = Some 2"
    and "\<exists>p d last. structured_output (sample_llm ''Too vague'') 4 p = Inr d \<and>
      SousChefRecipe_validate no_coercion d = Inr last \<and>
      parsed_recipe result = Some last \<and> final_recipe result = Some last"
    by blast+
  then have "final_recipe result = Some (sample_recipe ''Easy'' 4 550 35 [])"
    by (auto simp: sample_llm_def sample_plain_ok)
  with run tr at show ?thesis by blast
qed

end
